theory Spec2Isabelle
  imports Complex_Main
begin

section \<open>Data model (imagedata.js)\<close>

text \<open>
  JavaScript numbers that hold screen coordinates are read as real numbers; counters and
  indices that only ever hold non-negative integers are natural numbers; angles of the
  orientation table are integers. The lookup keys of the image and marker tables, built in
  the source as the string \<open>angle_tail\<close>, are the pair of the angle and the tail direction.
  A circle's fields \<open>x\<close> and \<open>y\<close> (per cent of the image) are \<open>x_pct\<close> and \<open>y_pct\<close>.
\<close>

datatype tailDir = up | down

record variant =
  angle :: int
  tail :: tailDir
  view :: string

record circleData =
  x_pct :: nat
  y_pct :: nat
  answer :: string
  "text" :: string

record qData =
  question :: string
  key :: "int \<times> tailDir"
  correctPosition :: nat
  correctAnswer :: string
  correctImage :: string

definition imageSetsByAngleAndTail :: "int \<times> tailDir \<Rightarrow> string list option" where
  "imageSetsByAngleAndTail k =
     (if k = (30, up) then Some [''Echo_Images/30_up_1.png'', ''Echo_Images/30_up_2.png'',
                                 ''Echo_Images/30_up_3.png'', ''Echo_Images/30_up_4.png'']
      else if k = (30, down) then Some [''Echo_Images/30_down_1.png'', ''Echo_Images/30_down_2.png'',
                                 ''Echo_Images/30_down_3.png'', ''Echo_Images/30_down_4.png'']
      else if k = (0, up) then Some [''Echo_Images/0_up_1.png'', ''Echo_Images/0_up_2.png'',
                                 ''Echo_Images/0_up_3.png'', ''Echo_Images/0_up_4.png'']
      else if k = (90, down) then Some [''Echo_Images/90_down_1.png'', ''Echo_Images/90_down_2.png'',
                                 ''Echo_Images/90_down_3.png'', ''Echo_Images/90_down_4.png'']
      else if k = (300, up) then Some [''Echo_Images/300_up_1.png'', ''Echo_Images/300_up_2.png'',
                                 ''Echo_Images/300_up_3.png'', ''Echo_Images/300_up_4.png'']
      else None)"

definition cellOrientationMap :: "nat \<Rightarrow> variant list option" where
  "cellOrientationMap p =
     (if p = 1 then Some [\<lparr>angle = 0, tail = up, view = ''Suprasternal Notch''\<rparr>]
      else if p = 2 then Some
        [\<lparr>angle = 30, tail = up, view = ''Parasternal Short-axis MV''\<rparr>,
         \<lparr>angle = 30, tail = down, view = ''Parasternal Short-axis AV''\<rparr>,
         \<lparr>angle = 300, tail = up, view = ''Parasternal Long-axis''\<rparr>]
      else if p = 3 then Some [\<lparr>angle = 90, tail = down, view = ''Subcostal 4-chamber''\<rparr>]
      else if p = 4 then Some [\<lparr>angle = 90, tail = down, view = ''Apical 4-chamber''\<rparr>]
      else None)"

definition circlePositionsByKey :: "int \<times> tailDir \<Rightarrow> circleData list list option" where
  "circlePositionsByKey k =
     (if k = (30, up) then Some
        [[],
         [\<lparr>x_pct = 45, y_pct = 54, answer = ''A'', text = ''Left Ventricle''\<rparr>],
         [],
         []]
      else if k = (30, down) then Some
        [[],
         [\<lparr>x_pct = 45, y_pct = 56, answer = ''B'', text = ''Aortic Valve''\<rparr>,
          \<lparr>x_pct = 45, y_pct = 37, answer = ''C'', text = ''RVOT''\<rparr>,
          \<lparr>x_pct = 45, y_pct = 70, answer = ''D'', text = ''Left Atrium''\<rparr>,
          \<lparr>x_pct = 30, y_pct = 60, answer = ''E'', text = ''Right Atrium''\<rparr>],
         [],
         []]
      else if k = (300, up) then Some
        [[],
         [\<lparr>x_pct = 40, y_pct = 50, answer = ''F'', text = ''Left Ventricle''\<rparr>,
          \<lparr>x_pct = 53, y_pct = 30, answer = ''G'', text = ''Right Ventricle''\<rparr>,
          \<lparr>x_pct = 65, y_pct = 60, answer = ''H'', text = ''Left Atrium''\<rparr>,
          \<lparr>x_pct = 53, y_pct = 60, answer = ''I'', text = ''Mitral Valve''\<rparr>,
          \<lparr>x_pct = 60, y_pct = 49, answer = ''K'', text = ''Ascending Aorta''\<rparr>],
         [],
         []]
      else if k = (0, up) then Some
        [[\<lparr>x_pct = 45, y_pct = 28, answer = ''A'', text = ''Brachiocephalic Trunk''\<rparr>,
          \<lparr>x_pct = 50, y_pct = 35, answer = ''B'', text = ''Left Common Carotid Artery''\<rparr>,
          \<lparr>x_pct = 35, y_pct = 60, answer = ''C'', text = ''Thoracic Descending Artery''\<rparr>,
          \<lparr>x_pct = 33, y_pct = 50, answer = ''D'', text = ''Main Pulmonary Artery''\<rparr>],
         [],
         [],
         []]
      else if k = (90, down) then Some
        [[],
         [],
         [\<lparr>x_pct = 50, y_pct = 30, answer = ''A'', text = ''Liver''\<rparr>,
          \<lparr>x_pct = 30, y_pct = 65, answer = ''B'', text = ''Right Atrium''\<rparr>,
          \<lparr>x_pct = 53, y_pct = 58, answer = ''C'', text = ''Left Ventricle''\<rparr>],
         [\<lparr>x_pct = 38, y_pct = 54, answer = ''A'', text = ''Right Ventricle''\<rparr>,
          \<lparr>x_pct = 54, y_pct = 50, answer = ''B'', text = ''Left Ventricle''\<rparr>,
          \<lparr>x_pct = 42, y_pct = 63, answer = ''C'', text = ''Tricuspid Valve''\<rparr>,
          \<lparr>x_pct = 53, y_pct = 60, answer = ''D'', text = ''Mitral Valve''\<rparr>,
          \<lparr>x_pct = 41, y_pct = 67, answer = ''E'', text = ''Right Atrium''\<rparr>,
          \<lparr>x_pct = 55, y_pct = 70, answer = ''F'', text = ''Left Atrium''\<rparr>]]
      else None)"

definition quizData :: "qData list" where
  "quizData =
     [\<lparr>question = ''In parasternal long axis view (PLAX), where is the right ventricle?'',
       key = (300, up), correctPosition = 2, correctAnswer = ''G'',
       correctImage = ''Echo_Images/answer/Q1_ans.png''\<rparr>,
      \<lparr>question = ''In parasternal short axis view (PSAX), where is the aortic valve?'',
       key = (30, down), correctPosition = 2, correctAnswer = ''B'',
       correctImage = ''Echo_Images/answer/Q2_ans.png''\<rparr>,
      \<lparr>question = ''In suprasternal notch view, where is the main pulmonary artery?'',
       key = (0, up), correctPosition = 1, correctAnswer = ''D'',
       correctImage = ''Echo_Images/answer/Q3_ans.png''\<rparr>,
      \<lparr>question = ''In apical 4-chamber view (A4C), where is the left atrium?'',
       key = (90, down), correctPosition = 4, correctAnswer = ''F'',
       correctImage = ''Echo_Images/answer/Q4_ans.png''\<rparr>,
      \<lparr>question = ''In subcostal 4-chamber view (S4C), where is the left ventricle?'',
       key = (90, down), correctPosition = 3, correctAnswer = ''C'',
       correctImage = ''Echo_Images/answer/Q5_ans.png''\<rparr>]"

text \<open>
  Reading an array at an index: JavaScript yields \<open>undefined\<close> out of range, here \<open>None\<close>.
\<close>

definition at_index :: "'a list \<Rightarrow> nat \<Rightarrow> 'a option" where
  "at_index xs i = (if i < length xs then Some (xs ! i) else None)"

text \<open>\<open>cellOrientationMap[pos] || []\<close>\<close>

definition views_at :: "nat \<Rightarrow> variant list" where
  "views_at p = (case cellOrientationMap p of None \<Rightarrow> [] | Some vs \<Rightarrow> vs)"

section \<open>Session state and page state\<close>

text \<open>
  \<open>currentViewIndex\<close> is a JavaScript number that the toggle handler can turn into \<open>NaN\<close>
  (a remainder by zero), so it is a natural number or \<open>NaN\<close>.
\<close>

datatype jsnum = Num nat | NaN

datatype error = TypeError | NotInvertible

text \<open>
  What the image panel holds: nothing (just cleared), a message, the notice that the tables
  have no image for a key at a position, or an image with its clickable circles.
\<close>

datatype panel =
    Cleared
  | Message string
  | NoImage "int \<times> tailDir" nat
  | Image string "circleData list"

text \<open>
  The state that the handlers share: the script's variables (the first eleven fields), and
  the parts of the page that the handlers write. An element's \<open>hidden\<close> class is a
  boolean, a text content is a string or the numbers printed in it, the probe's transform
  is the pair of its rotation in degrees and whether it is mirrored. The rope's path, the
  cursor, the question and part containers of the sandbox and the exit prompt are drawn
  or shown only and are left out.
\<close>

record state =
  currentQuestionIndex :: nat
  score :: nat
  sweepDeg :: int
  tailPosition :: tailDir
  lastCellPos :: "nat option"
  currentViewIndex :: jsnum
  activeCircleElement :: "circleData option"
  isSimulatorActive :: bool
  isFeedbackActive :: bool
  isSandBoxActive :: bool
  gameStarted :: bool
  imagePanel :: panel
  partDisplay :: string
  rotationDisplay :: string
  tailDisplay :: string
  viewDisplay :: string
  probeImgSrc :: string
  probeTransform :: "int \<times> bool"
  toggleButtonHidden :: bool
  toggleButtonText :: "jsnum \<times> nat"
  showAnswerButtonHidden :: bool
  nextQuestionButtonHidden :: bool
  correctAnswerImageHidden :: bool
  feedbackBoxHidden :: bool
  containerOverlayHidden :: bool
  questionTitleScreenHidden :: bool
  containerHidden :: bool
  endScreenHidden :: bool
  titleScreenHidden :: bool
  feedbackText :: string
  finalScore :: "(nat \<times> nat) option"
  questionNumber :: "nat \<times> nat"
  questionText :: string
  questionBox :: string
  currentQuestion :: nat
  confetti :: nat

text \<open>
  What a handler leaves: the new state, or, when it throws, the error together with the
  state at the moment of the throw (the script's variables and the page keep what the
  handler had written by then).
\<close>

type_synonym outcome = "(error \<times> state) + state"

definition state_after :: "outcome \<Rightarrow> state" where
  "state_after r = (case r of Inl es \<Rightarrow> snd es | Inr s \<Rightarrow> s)"

text \<open>
  The page layout that a handler reads through \<open>getBoundingClientRect\<close>: the drop zones
  (\<open>.cell\<close> elements, each with its \<open>data-pos\<close> number) in document order, and the
  probe's box. It is an input of every handler that reads it, since dragging, resizing and
  scrolling change it between events. A rectangle's \<open>top\<close> is the field \<open>top_y\<close>.
\<close>

record domRect =
  left :: real
  top_y :: real
  right :: real
  bottom :: real
  width :: real
  height :: real

record cell =
  pos :: nat
  box :: domRect

record layout =
  cells :: "cell list"
  probeBox :: domRect

section \<open>Number helpers\<close>

text \<open>\<open>n + 1\<close> and \<open>n % m\<close> on a number that may be \<open>NaN\<close>.\<close>

fun js_succ :: "jsnum \<Rightarrow> jsnum" where
  "js_succ (Num n) = Num (n + 1)"
| "js_succ NaN = NaN"

fun js_mod :: "jsnum \<Rightarrow> nat \<Rightarrow> jsnum" where
  "js_mod (Num n) m = (if m = 0 then NaN else Num (n mod m))"
| "js_mod NaN m = NaN"

text \<open>JavaScript's remainder on integers, for a divisor other than 0, takes the sign of
  the dividend. \<open>Math.round\<close> rounds a half upwards.\<close>

definition js_rem :: "int \<Rightarrow> int \<Rightarrow> int" where
  "js_rem a b = sgn a * (\<bar>a\<bar> mod \<bar>b\<bar>)"

definition Math_round :: "real \<Rightarrow> int" where
  "Math_round r = \<lfloor>r + 1 / 2\<rfloor>"

definition then_do :: "'e + 'a \<Rightarrow> ('a \<Rightarrow> 'e + 'b) \<Rightarrow> 'e + 'b" where
  "then_do r f = (case r of Inl e \<Rightarrow> Inl e | Inr v \<Rightarrow> f v)"

section \<open>Game flow utilities and the probe\<close>

definition clock_labels :: "string list" where
  "clock_labels =
     [''12 o'clock'', ''1 o'clock'', ''2 o'clock'', ''3 o'clock'',
      ''4 o'clock'', ''5 o'clock'', ''6 o'clock'', ''7 o'clock'',
      ''8 o'clock'', ''9 o'clock'', ''10 o'clock'', ''11 o'clock'']"

definition degreesToClock :: "int \<Rightarrow> string" where
  "degreesToClock a =
     (let normalized = js_rem (js_rem a 360 + 360) 360;
          hourIndex = js_rem (Math_round (real_of_int normalized / 30)) 12
      in clock_labels ! nat hourIndex)"

definition probeImages :: "tailDir \<Rightarrow> string" where
  "probeImages t = (case t of up \<Rightarrow> ''./images/probe_tail_down.png''
                            | down \<Rightarrow> ''./images/probe_tail_down.png'')"

definition setProbeTailImage :: "tailDir \<Rightarrow> state \<Rightarrow> state" where
  "setProbeTailImage t s = s\<lparr>probeImgSrc := probeImages t\<rparr>"

text \<open>
  The probe's CSS transform is the pair of the rotation in degrees and whether the image is
  mirrored (\<open>scaleX(-1)\<close>); \<open>scaleY(1)\<close> and the empty flip are both "not mirrored".
\<close>

definition applyProbeTransform :: "state \<Rightarrow> state" where
  "applyProbeTransform s = s\<lparr>probeTransform := (sweepDeg s, tailPosition s \<noteq> up)\<rparr>"

definition resetProbe :: "state \<Rightarrow> state" where
  "resetProbe s =
     (let s1 = s\<lparr>sweepDeg := 90, tailPosition := down, rotationDisplay := ''3 o'clock'',
                  viewDisplay := ''-'', tailDisplay := ''Tail Down''\<rparr>;
          s2 = setProbeTailImage (tailPosition s1) s1
      in s2\<lparr>probeTransform := (90, True)\<rparr>)"

definition getProbeCenter :: "domRect \<Rightarrow> real \<times> real" where
  "getProbeCenter rect = (left rect + width rect / 2, top_y rect + height rect / 2)"

section \<open>Zone resolution and the image preview (simulator script)\<close>

text \<open>
  The zone under a point: \<open>Array.from(cells).find(...)\<close>, the first cell in document order
  whose box contains the point, borders included, or \<open>undefined\<close>.
\<close>

definition match_cell :: "real \<Rightarrow> real \<Rightarrow> cell list \<Rightarrow> cell option" where
  "match_cell probeCenterX probeCenterY cs =
     find (\<lambda>c. let b = box c in
                 probeCenterX \<ge> left b \<and> probeCenterX \<le> right b \<and>
                 probeCenterY \<ge> top_y b \<and> probeCenterY \<le> bottom b) cs"

text \<open>
  \<open>updateImagePreview\<close> is written here block by block, in the order of its source.
  First block: "always clear the image panel and hide controls".
\<close>

definition clear_panel :: "state \<Rightarrow> state" where
  "clear_panel s =
     s\<lparr>imagePanel := Cleared, partDisplay := ''-'', toggleButtonHidden := True,
       showAnswerButtonHidden := True, nextQuestionButtonHidden := True,
       correctAnswerImageHidden := True\<rparr>"

text \<open>"If moved to a new cell, reset the view index."\<close>

definition reset_view_index :: "nat \<Rightarrow> state \<Rightarrow> state" where
  "reset_view_index p s =
     (if lastCellPos s \<noteq> Some p
      then s\<lparr>currentViewIndex := Num 0, lastCellPos := Some p\<rparr> else s)"

text \<open>
  "Show switch view UI if there are multiples." The condition is the source's
  \<open>views.length > 1 && isSimulatorActive || isSandBoxActive\<close>, where \<open>&&\<close> binds
  tighter than \<open>||\<close>. The button's text "Switch View (i/n)" is the pair (i, n). The
  placing of the button on the screen is left out.
\<close>

definition show_switch_view :: "variant list \<Rightarrow> state \<Rightarrow> state" where
  "show_switch_view views s =
     (if (length views > 1 \<and> isSimulatorActive s) \<or> isSandBoxActive s
      then s\<lparr>toggleButtonHidden := False,
             toggleButtonText := (js_succ (currentViewIndex s), length views)\<rparr>
      else s)"

text \<open>
  "Apply the probe transform", "update UI text" and the "exception for PLAX", for the view
  \<open>v\<close> read at index \<open>i = currentViewIndex % views.length\<close> of the zone \<open>p\<close>.
\<close>

definition apply_view :: "nat \<Rightarrow> nat \<Rightarrow> variant \<Rightarrow> state \<Rightarrow> state" where
  "apply_view p i v s =
     (let s1 = setProbeTailImage (tail v) (s\<lparr>sweepDeg := angle v, tailPosition := tail v\<rparr>);
          s2 = s1\<lparr>probeTransform := (angle v, tail v = down),
                  rotationDisplay := degreesToClock (angle v),
                  tailDisplay := (if tail v = up then ''Tail Up'' else ''Tail Down''),
                  viewDisplay := view v\<rparr>
      in if p = 2 \<and> i = 2
         then s2\<lparr>probeImgSrc := ''./images/probe_v.png'', probeTransform := (300, False),
                 tailDisplay := ''Tail Neutral''\<rparr>
         else s2)"

text \<open>
  "Inject the images and circles." Every entry of the image table is a non-empty string,
  so \<open>!imageSet\<close> is the missing entry. Positions count from 1, the arrays from 0.
\<close>

definition inject_image :: "nat \<Rightarrow> variant \<Rightarrow> state \<Rightarrow> state" where
  "inject_image p v s =
     (let k = (angle v, tail v);
          imageSet = (case imageSetsByAngleAndTail k of
                        None \<Rightarrow> None
                      | Some a \<Rightarrow> if p = 0 then None else at_index a (p - 1))
      in case imageSet of
           None \<Rightarrow> s\<lparr>imagePanel := NoImage k p\<rparr>
         | Some src \<Rightarrow>
             (let circles =
                    (case circlePositionsByKey k of
                       None \<Rightarrow> []
                     | Some cs \<Rightarrow>
                         (case (if p = 0 then None else at_index cs (p - 1)) of
                            None \<Rightarrow> [] | Some c \<Rightarrow> c))
              in s\<lparr>imagePanel := Image src circles\<rparr>))"

text \<open>
  The whole function: it resolves the zone under the probe's centre, clears the panel, and
  then either resets the probe (no zone), reports a zone without views, or shows the view
  \<open>views[currentViewIndex % views.length]\<close> of the zone. Reading that entry with a
  \<open>NaN\<close> index yields \<open>undefined\<close>, whose destructuring throws a TypeError. The
  deferred refresh of the rope draws only and is left out.
\<close>

definition updateImagePreview :: "layout \<Rightarrow> state \<Rightarrow> outcome" where
  "updateImagePreview L s =
     (let probeCenterX = left (probeBox L) + width (probeBox L) / 2;
          probeCenterY = top_y (probeBox L) + height (probeBox L) / 2;
          match = match_cell probeCenterX probeCenterY (cells L);
          s1 = clear_panel s
      in case match of
           None \<Rightarrow>
             Inr ((resetProbe s1)
                    \<lparr>imagePanel := Message ''Drop the probe on a valid zone to view an image''\<rparr>)
         | Some m \<Rightarrow>
             (let p = pos m; views = views_at p in
              if views = [] then
                Inr (s1\<lparr>imagePanel := Message ''Invalid position for this probe orientation''\<rparr>)
              else
                (let s2 = reset_view_index p s1;
                     s3 = show_switch_view views s2
                 in case js_mod (currentViewIndex s3) (length views) of
                      NaN \<Rightarrow> Inl (TypeError, s3)
                    | Num i \<Rightarrow> Inr (inject_image p (views ! i) (apply_view p i (views ! i) s3)))))"

text \<open>
  \<open>loadQuestion\<close>. The question counter is the pair (number, total) of the text
  "Question n of total"; the text for a missing question is written without the pictograph
  in front of it.
\<close>

definition loadQuestion :: "layout \<Rightarrow> state \<Rightarrow> outcome" where
  "loadQuestion L s =
     (case at_index quizData (currentQuestionIndex s) of
        None \<Rightarrow> Inr (s\<lparr>questionBox := ''No question found.''\<rparr>)
      | Some q \<Rightarrow>
          then_do
            (updateImagePreview L
               (s\<lparr>questionNumber := (currentQuestionIndex s + 1, length quizData),
                  questionText := question q,
                  currentQuestion := currentQuestionIndex s + 1,
                  questionBox := question q\<rparr>))
            (\<lambda>s'. Inr (applyProbeTransform s')))"

text \<open>The position update: the mouse-move handler's call of \<open>updateImagePreview\<close> while
  dragging, with the layout that has the probe at its new place.\<close>

definition position_update :: "layout \<Rightarrow> state \<Rightarrow> outcome" where
  "position_update L s = updateImagePreview L s"

text \<open>The click handler of the toggle ("Switch View") button.\<close>

definition toggle_click :: "layout \<Rightarrow> state \<Rightarrow> outcome" where
  "toggle_click L s =
     (let views = (case lastCellPos s of None \<Rightarrow> [] | Some p \<Rightarrow> views_at p)
      in updateImagePreview L
           (s\<lparr>currentViewIndex := js_mod (js_succ (currentViewIndex s)) (length views)\<rparr>))"

text \<open>
  The click handler of a circle. It is created by \<open>updateImagePreview\<close> and keeps the
  position \<open>pos\<close> and the circle's data of that rendering. In quiz mode, reading
  \<open>qData.correctPosition\<close> when no question is left throws a TypeError. The feedback
  texts are written without the pictograph in front of them; the highlight of the active
  circle is its being the \<open>activeCircleElement\<close>.
\<close>

definition circle_click :: "nat \<Rightarrow> circleData \<Rightarrow> state \<Rightarrow> outcome" where
  "circle_click p circle s =
     (if isSandBoxActive s then
        Inr (s\<lparr>feedbackBoxHidden := True, containerOverlayHidden := True,
               questionTitleScreenHidden := True, isSimulatorActive := False,
               isFeedbackActive := False, partDisplay := text circle,
               activeCircleElement := Some circle\<rparr>)
      else
        (case at_index quizData (currentQuestionIndex s) of
           None \<Rightarrow> Inl (TypeError, s)
         | Some q \<Rightarrow>
             (let selectedAnswer = answer circle;
                  s1 = (if p = correctPosition q \<and> selectedAnswer = correctAnswer q
                           \<and> \<not> isFeedbackActive s
                        then s\<lparr>score := score s + 1, feedbackText := ''Correct!'',
                               nextQuestionButtonHidden := False,
                               correctAnswerImageHidden := True\<rparr>
                        else if \<not> isFeedbackActive s
                        then s\<lparr>feedbackText := ''Incorrect.'',
                               showAnswerButtonHidden := False,
                               nextQuestionButtonHidden := False,
                               correctAnswerImageHidden := True\<rparr>
                        else s)
              in Inr (s1\<lparr>feedbackBoxHidden := False, containerOverlayHidden := False,
                        questionTitleScreenHidden := True, isSimulatorActive := False,
                        isFeedbackActive := True\<rparr>))))"

section \<open>Feedback and progression (feedback.js)\<close>

text \<open>
  The click handler of the "next question" button. The final score text
  "score out of total" is the pair (score, total); the confetti is the number of pieces
  on the end screen.
\<close>

definition nextQuestion_click :: "layout \<Rightarrow> state \<Rightarrow> outcome" where
  "nextQuestion_click L s =
     (let s1 = s\<lparr>feedbackBoxHidden := True, containerOverlayHidden := True,
                  showAnswerButtonHidden := True, nextQuestionButtonHidden := True,
                  isFeedbackActive := False,
                  currentQuestionIndex := currentQuestionIndex s + 1\<rparr>
      in case at_index quizData (currentQuestionIndex s1) of
           Some q \<Rightarrow>
             loadQuestion L
               (s1\<lparr>questionTitleScreenHidden := False, containerHidden := True,
                   isSimulatorActive := False\<rparr>)
         | None \<Rightarrow>
             Inr (s1\<lparr>containerHidden := True,
                     finalScore := Some (score s1, length quizData),
                     isSimulatorActive := False, endScreenHidden := False,
                     confetti := confetti s1 + 100\<rparr>))"

section \<open>Mode entry and restart (game flow script)\<close>

definition initUI :: "layout \<Rightarrow> state \<Rightarrow> outcome" where
  "initUI L s =
     then_do (loadQuestion L s)
       (\<lambda>s'. Inr (s'\<lparr>sweepDeg := 90, rotationDisplay := ''3 o'clock'',
                      tailDisplay := ''Tail Down'', viewDisplay := ''-''\<rparr>))"

definition startButton_click :: "layout \<Rightarrow> state \<Rightarrow> outcome" where
  "startButton_click L s =
     loadQuestion L
       (s\<lparr>titleScreenHidden := True, questionTitleScreenHidden := False,
          gameStarted := True, currentQuestionIndex := 0, score := 0\<rparr>)"

definition sandBoxButton_click :: "layout \<Rightarrow> state \<Rightarrow> outcome" where
  "sandBoxButton_click L s =
     then_do
       (initUI L (s\<lparr>titleScreenHidden := True, containerHidden := False,
                    isSimulatorActive := False, isSandBoxActive := True\<rparr>))
       (\<lambda>s'. then_do (updateImagePreview L s') (loadQuestion L))"

definition continueButton_click :: "layout \<Rightarrow> state \<Rightarrow> outcome" where
  "continueButton_click L s =
     then_do
       (initUI L (s\<lparr>feedbackBoxHidden := True, questionTitleScreenHidden := True,
                    containerHidden := False, isSimulatorActive := True\<rparr>))
       (\<lambda>s'. then_do (updateImagePreview L s') (loadQuestion L))"

definition confirmExitButton_click :: "state \<Rightarrow> state" where
  "confirmExitButton_click s =
     s\<lparr>isSimulatorActive := False, isSandBoxActive := False, gameStarted := False,
       currentQuestionIndex := 0, score := 0, containerHidden := True,
       titleScreenHidden := False, containerOverlayHidden := True\<rparr>"

text \<open>
  The click handler of the restart button. It also moves the probe to a fixed place of the
  container; the layout given is the one after that move.
\<close>

definition restartButton_click :: "layout \<Rightarrow> state \<Rightarrow> outcome" where
  "restartButton_click L s =
     loadQuestion L
       (s\<lparr>currentQuestionIndex := 0, score := 0, sweepDeg := 90, tailPosition := down,
          currentViewIndex := Num 0, lastCellPos := None,
          endScreenHidden := True, titleScreenHidden := False,
          probeTransform := (0, False), confetti := 0\<rparr>)"

section \<open>The rope (rope script)\<close>

text \<open>
  \<open>getTailAnchor\<close>, with \<open>Math.PI\<close>, \<open>Math.cos\<close> and \<open>Math.sin\<close> read as the real
  \<open>pi\<close>, \<open>cos\<close> and \<open>sin\<close>.
\<close>

definition getTailAnchor :: "domRect \<Rightarrow> real \<Rightarrow> tailDir \<Rightarrow> jsnum \<Rightarrow> real \<times> real" where
  "getTailAnchor probeEl angleDeg tailDir' viewIndex =
     (let (cx, cy) = getProbeCenter probeEl;
          r = 160 / 2;
          theta = angleDeg * pi / 180;
          offsetAngle = (if tailDir' = down then theta else theta + pi)
      in if viewIndex = Num 2 then (cx, cy)
         else (cx + r * cos offsetAngle, cy + r * sin offsetAngle))"

text \<open>
  The screen transform of the drawing surface is the affine matrix that
  \<open>getScreenCTM\<close> returns, or \<open>None\<close> for \<open>null\<close>. Its \<open>inverse\<close> and
  \<open>matrixTransform\<close> are the platform's: a matrix with determinant zero has no inverse
  (the platform throws or yields \<open>NaN\<close> entries), which is the value \<open>Inl NotInvertible\<close>.
\<close>

record matrix =
  ma :: real
  mb :: real
  mc :: real
  md :: real
  me :: real
  mf :: real

definition matrix_inverse :: "matrix \<Rightarrow> error + matrix" where
  "matrix_inverse m =
     (let det = ma m * md m - mb m * mc m
      in if det = 0 then Inl NotInvertible
         else Inr \<lparr>ma = md m / det, mb = - mb m / det,
                   mc = - mc m / det, md = ma m / det,
                   me = (mc m * mf m - md m * me m) / det,
                   mf = (mb m * me m - ma m * mf m) / det\<rparr>)"

definition matrixTransform :: "real \<times> real \<Rightarrow> matrix \<Rightarrow> real \<times> real" where
  "matrixTransform pt m =
     (ma m * fst pt + mc m * snd pt + me m, mb m * fst pt + md m * snd pt + mf m)"

text \<open>
  \<open>toSvgCoords\<close> returns the warnings it logs together with its result.
\<close>

definition toSvgCoords :: "matrix option \<Rightarrow> real \<Rightarrow> real \<Rightarrow> string list \<times> (error + real \<times> real)" where
  "toSvgCoords screenCTM px py =
     (case screenCTM of
        None \<Rightarrow> ([''SVG CTM not available''], Inr (px, py))
      | Some m \<Rightarrow>
          ([], then_do (matrix_inverse m) (\<lambda>inv. Inr (matrixTransform (px, py) inv))))"

section \<open>Runs of events\<close>

text \<open>Marker clicks one after the other, each given as the position and the circle's
  data that its handler holds. A handler that throws ends the run.\<close>

fun clicks :: "(nat \<times> circleData) list \<Rightarrow> state \<Rightarrow> outcome" where
  "clicks [] s = Inr s"
| "clicks (pc # rest) s = then_do (circle_click (fst pc) (snd pc) s) (clicks rest)"

text \<open>A quiz played in rounds: the marker clicks on one question, then the click on
  "next question" under the layout of that moment.\<close>

fun play :: "((nat \<times> circleData) list \<times> layout) list \<Rightarrow> state \<Rightarrow> outcome" where
  "play [] s = Inr s"
| "play (r # rest) s =
     then_do (clicks (fst r) s) (\<lambda>s1. then_do (nextQuestion_click (snd r) s1) (play rest))"

text \<open>Clicks on the toggle button one after the other, each under its layout.\<close>

fun toggle_clicks :: "layout list \<Rightarrow> state \<Rightarrow> outcome" where
  "toggle_clicks [] s = Inr s"
| "toggle_clicks (L # rest) s = then_do (toggle_click L s) (toggle_clicks rest)"

section \<open>Notions used in the statements\<close>

text \<open>A cell's box contains a point (borders included), or has it in its interior.\<close>

definition covers :: "cell \<Rightarrow> real \<Rightarrow> real \<Rightarrow> bool" where
  "covers c px py =
     (left (box c) \<le> px \<and> px \<le> right (box c) \<and> top_y (box c) \<le> py \<and> py \<le> bottom (box c))"

definition strictly_inside :: "cell \<Rightarrow> real \<Rightarrow> real \<Rightarrow> bool" where
  "strictly_inside c px py =
     (left (box c) < px \<and> px < right (box c) \<and> top_y (box c) < py \<and> py < bottom (box c))"

text \<open>The cell that \<open>updateImagePreview\<close> resolves under a layout.\<close>

definition zone_under :: "layout \<Rightarrow> cell option" where
  "zone_under L =
     match_cell (left (probeBox L) + width (probeBox L) / 2)
                (top_y (probeBox L) + height (probeBox L) / 2) (cells L)"

text \<open>The first click of a round answers the question: it names the question's position
  and answer tag.\<close>

definition first_click_matches :: "qData \<Rightarrow> (nat \<times> circleData) list \<Rightarrow> bool" where
  "first_click_matches q cs =
     (case cs of [] \<Rightarrow> False
      | pc # _ \<Rightarrow> fst pc = correctPosition q \<and> answer (snd pc) = correctAnswer q)"

fun correct_count :: "qData list \<Rightarrow> ((nat \<times> circleData) list \<times> layout) list \<Rightarrow> nat" where
  "correct_count (q # qs) (r # rs) =
     (if first_click_matches q (fst r) then 1 else 0) + correct_count qs rs"
| "correct_count _ _ = 0"

text \<open>The view index is a valid index into the views of the remembered zone, whenever a
  zone is remembered.\<close>

definition view_index_valid :: "state \<Rightarrow> bool" where
  "view_index_valid s =
     (case lastCellPos s of
        None \<Rightarrow> True
      | Some p \<Rightarrow> (case currentViewIndex s of NaN \<Rightarrow> False | Num i \<Rightarrow> i < length (views_at p)))"

text \<open>The quiz fields, and the remembered zone with its view index, as equal in two
  states.\<close>

definition same_quiz :: "state \<Rightarrow> state \<Rightarrow> bool" where
  "same_quiz s s' =
     (score s' = score s \<and> currentQuestionIndex s' = currentQuestionIndex s
      \<and> isFeedbackActive s' = isFeedbackActive s \<and> isSandBoxActive s' = isSandBoxActive s
      \<and> isSimulatorActive s' = isSimulatorActive s \<and> gameStarted s' = gameStarted s
      \<and> endScreenHidden s' = endScreenHidden s \<and> finalScore s' = finalScore s
      \<and> confetti s' = confetti s \<and> questionBox s' = questionBox s
      \<and> questionNumber s' = questionNumber s)"

definition same_view :: "state \<Rightarrow> state \<Rightarrow> bool" where
  "same_view s s' = (lastCellPos s' = lastCellPos s \<and> currentViewIndex s' = currentViewIndex s)"

section \<open>Example inputs\<close>

text \<open>
  The script's variables as its \<open>let\<close> declarations initialise them. The page's markup is
  not among the scripts, so the page fields hold example values: the title screen showing,
  everything else hidden or empty.
\<close>

definition initial_state :: state where
  "initial_state =
     \<lparr>currentQuestionIndex = 0, score = 0, sweepDeg = 0, tailPosition = up,
      lastCellPos = None, currentViewIndex = Num 0, activeCircleElement = None,
      isSimulatorActive = False, isFeedbackActive = False, isSandBoxActive = False,
      gameStarted = False,
      imagePanel = Cleared, partDisplay = ''-'', rotationDisplay = ''-'', tailDisplay = ''-'',
      viewDisplay = ''-'', probeImgSrc = ''./images/probe_tail_down.png'',
      probeTransform = (0, False),
      toggleButtonHidden = True, toggleButtonText = (Num 1, 1),
      showAnswerButtonHidden = True, nextQuestionButtonHidden = True,
      correctAnswerImageHidden = True, feedbackBoxHidden = True,
      containerOverlayHidden = True, questionTitleScreenHidden = True,
      containerHidden = True, endScreenHidden = True, titleScreenHidden = False,
      feedbackText = [], finalScore = None, questionNumber = (1, 5),
      questionText = [], questionBox = [], currentQuestion = 1, confetti = 0\<rparr>"

text \<open>An example layout: four square zones of side 60, and a probe of width and height
  160 centred at a given point.\<close>

definition square :: "real \<Rightarrow> real \<Rightarrow> real \<Rightarrow> domRect" where
  "square l t w = \<lparr>left = l, top_y = t, right = l + w, bottom = t + w, width = w, height = w\<rparr>"

definition example_cells :: "cell list" where
  "example_cells =
     [\<lparr>pos = 1, box = square 100 50 60\<rparr>,
      \<lparr>pos = 2, box = square 100 150 60\<rparr>,
      \<lparr>pos = 3, box = square 100 250 60\<rparr>,
      \<lparr>pos = 4, box = square 200 200 60\<rparr>]"

definition probe_at :: "real \<Rightarrow> real \<Rightarrow> layout" where
  "probe_at cx cy = \<lparr>cells = example_cells, probeBox = square (cx - 80) (cy - 80) 160\<rparr>"

text \<open>A circle of the PLAX image, used in examples.\<close>

definition circle_G :: circleData where
  "circle_G = \<lparr>x_pct = 53, y_pct = 30, answer = ''G'', text = ''Right Ventricle''\<rparr>"

text \<open>A play of the quiz in which the first click on every question is the right circle
  at the right position, the probe resting over zone 2 at every advance.\<close>

definition all_correct_rounds :: "((nat \<times> circleData) list \<times> layout) list" where
  "all_correct_rounds =
     [([(2, circle_G)], probe_at 130 180),
      ([(2, \<lparr>x_pct = 45, y_pct = 56, answer = ''B'', text = ''Aortic Valve''\<rparr>)], probe_at 130 180),
      ([(1, \<lparr>x_pct = 33, y_pct = 50, answer = ''D'', text = ''Main Pulmonary Artery''\<rparr>)],
       probe_at 130 180),
      ([(4, \<lparr>x_pct = 55, y_pct = 70, answer = ''F'', text = ''Left Atrium''\<rparr>),
        (4, \<lparr>x_pct = 38, y_pct = 54, answer = ''A'', text = ''Right Ventricle''\<rparr>)],
       probe_at 130 180),
      ([(3, \<lparr>x_pct = 53, y_pct = 58, answer = ''C'', text = ''Left Ventricle''\<rparr>)],
       probe_at 130 180)]"

section \<open>Basic facts\<close>

lemma then_do_Inr [simp]: "then_do (Inr v) f = f v"
  by (simp add: then_do_def)

lemma then_do_Inl [simp]: "then_do (Inl e) f = Inl e"
  by (simp add: then_do_def)

lemma state_after_simps [simp]:
  "state_after (Inr s) = s" "state_after (Inl (e, s)) = s"
  by (simp_all add: state_after_def)

lemma zone_under_zone2: "zone_under (probe_at 130 180) = Some \<lparr>pos = 2, box = square 100 150 60\<rparr>"
  by (simp add: zone_under_def probe_at_def match_cell_def example_cells_def square_def Let_def)

lemma zone_under_zone1: "zone_under (probe_at 130 80) = Some \<lparr>pos = 1, box = square 100 50 60\<rparr>"
  by (simp add: zone_under_def probe_at_def match_cell_def example_cells_def square_def Let_def)

lemma zone_under_nowhere: "zone_under (probe_at 400 400) = None"
  by (simp add: zone_under_def probe_at_def match_cell_def example_cells_def square_def Let_def)

lemma views_at_simps:
  "views_at 1 = [\<lparr>angle = 0, tail = up, view = ''Suprasternal Notch''\<rparr>]"
  "views_at 2 = [\<lparr>angle = 30, tail = up, view = ''Parasternal Short-axis MV''\<rparr>,
         \<lparr>angle = 30, tail = down, view = ''Parasternal Short-axis AV''\<rparr>,
         \<lparr>angle = 300, tail = up, view = ''Parasternal Long-axis''\<rparr>]"
  "views_at 3 = [\<lparr>angle = 90, tail = down, view = ''Subcostal 4-chamber''\<rparr>]"
  "views_at 4 = [\<lparr>angle = 90, tail = down, view = ''Apical 4-chamber''\<rparr>]"
  by (simp_all add: views_at_def cellOrientationMap_def)

lemma same_quiz_trans: "same_quiz a b \<Longrightarrow> same_quiz b c \<Longrightarrow> same_quiz a c"
  by (simp add: same_quiz_def)

lemma same_view_trans: "same_view a b \<Longrightarrow> same_view b c \<Longrightarrow> same_view a c"
  by (simp add: same_view_def)

lemma clear_panel_same: "same_quiz s (clear_panel s)" "same_view s (clear_panel s)"
  by (simp_all add: same_quiz_def same_view_def clear_panel_def)

lemma resetProbe_same: "same_quiz s (resetProbe s)" "same_view s (resetProbe s)"
  by (simp_all add: same_quiz_def same_view_def resetProbe_def setProbeTailImage_def)

lemma reset_view_index_same: "same_quiz s (reset_view_index p s)"
  by (simp add: same_quiz_def reset_view_index_def)

lemma show_switch_view_same: "same_quiz s (show_switch_view vs s)" "same_view s (show_switch_view vs s)"
  by (simp_all add: same_quiz_def same_view_def show_switch_view_def)

lemma apply_view_same: "same_quiz s (apply_view p i v s)" "same_view s (apply_view p i v s)"
  by (simp_all add: same_quiz_def same_view_def apply_view_def setProbeTailImage_def Let_def)

lemma inject_image_same: "same_quiz s (inject_image p v s)" "same_view s (inject_image p v s)"
  by (simp_all add: same_quiz_def same_view_def inject_image_def Let_def split: option.splits)

lemma imagePanel_same: "same_quiz s (s\<lparr>imagePanel := x\<rparr>)" "same_view s (s\<lparr>imagePanel := x\<rparr>)"
  by (simp_all add: same_quiz_def same_view_def)


lemma updateImagePreview_None:
  assumes "zone_under L = None"
  shows "updateImagePreview L s =
           Inr ((resetProbe (clear_panel s))
                  \<lparr>imagePanel := Message ''Drop the probe on a valid zone to view an image''\<rparr>)"
  using assms by (simp add: updateImagePreview_def zone_under_def Let_def)

lemma updateImagePreview_no_views:
  assumes "zone_under L = Some m" and "views_at (pos m) = []"
  shows "updateImagePreview L s =
           Inr ((clear_panel s)
                  \<lparr>imagePanel := Message ''Invalid position for this probe orientation''\<rparr>)"
  using assms by (simp add: updateImagePreview_def zone_under_def Let_def)

lemma updateImagePreview_views:
  assumes "zone_under L = Some m" and "views_at (pos m) \<noteq> []"
  shows "updateImagePreview L s =
           (let views = views_at (pos m);
                s3 = show_switch_view views (reset_view_index (pos m) (clear_panel s))
            in case js_mod (currentViewIndex s3) (length views) of
                 NaN \<Rightarrow> Inl (TypeError, s3)
               | Num i \<Rightarrow> Inr (inject_image (pos m) (views ! i)
                                 (apply_view (pos m) i (views ! i) s3)))"
  using assms by (simp add: updateImagePreview_def zone_under_def Let_def)

lemma updateImagePreview_same_quiz:
  assumes "updateImagePreview L s = Inr s'"
  shows "same_quiz s s'"
proof (cases "zone_under L")
  case None
  have "same_quiz s ((resetProbe (clear_panel s))
                  \<lparr>imagePanel := Message ''Drop the probe on a valid zone to view an image''\<rparr>)"
    by (blast intro: same_quiz_trans clear_panel_same resetProbe_same imagePanel_same)
  with assms None show ?thesis by (simp add: updateImagePreview_None)
next
  case (Some m)
  show ?thesis
  proof (cases "views_at (pos m) = []")
    case True
    have "same_quiz s ((clear_panel s)
                  \<lparr>imagePanel := Message ''Invalid position for this probe orientation''\<rparr>)"
      by (blast intro: same_quiz_trans clear_panel_same imagePanel_same)
    with assms Some True show ?thesis by (simp add: updateImagePreview_no_views)
  next
    case False
    define s3 where "s3 = show_switch_view (views_at (pos m)) (reset_view_index (pos m) (clear_panel s))"
    have s3: "same_quiz s s3" unfolding s3_def
      by (blast intro: same_quiz_trans clear_panel_same reset_view_index_same show_switch_view_same)
    from assms Some False obtain i where
      "s' = inject_image (pos m) (views_at (pos m) ! i) (apply_view (pos m) i (views_at (pos m) ! i) s3)"
      by (auto simp: updateImagePreview_views Let_def s3_def split: jsnum.splits)
    then show ?thesis
      using s3 by (blast intro: same_quiz_trans apply_view_same inject_image_same)
  qed
qed


lemma view_of_shown:
  "lastCellPos (inject_image p v (apply_view p i v s)) = lastCellPos s"
  "currentViewIndex (inject_image p v (apply_view p i v s)) = currentViewIndex s"
  using same_view_trans [OF apply_view_same(2) inject_image_same(2)]
  by (simp_all add: same_view_def)

lemma orientation_of_shown:
  "sweepDeg (inject_image p v (apply_view p i v s)) = angle v"
  "tailPosition (inject_image p v (apply_view p i v s)) = tail v"
  by (simp_all add: inject_image_def apply_view_def setProbeTailImage_def Let_def
               split: option.splits)

lemma toggle_of_shown:
  "toggleButtonHidden (inject_image p v (apply_view p i v s)) = toggleButtonHidden s"
  by (simp add: inject_image_def apply_view_def setProbeTailImage_def Let_def
           split: option.splits)

lemma view_of_switch:
  "lastCellPos (show_switch_view vs s) = lastCellPos s"
  "currentViewIndex (show_switch_view vs s) = currentViewIndex s"
  using show_switch_view_same(2) [of s vs] by (simp_all add: same_view_def)

lemma view_of_clear:
  "lastCellPos (clear_panel s) = lastCellPos s"
  "currentViewIndex (clear_panel s) = currentViewIndex s"
  using clear_panel_same(2) [of s] by (simp_all add: same_view_def)

lemma updateImagePreview_enter:
  assumes "zone_under L = Some m" and "views_at (pos m) \<noteq> []"
    and "lastCellPos s \<noteq> Some (pos m)"
  shows "\<exists>s'. updateImagePreview L s = Inr s' \<and> lastCellPos s' = Some (pos m)
           \<and> currentViewIndex s' = Num 0
           \<and> sweepDeg s' = angle (views_at (pos m) ! 0)
           \<and> tailPosition s' = tail (views_at (pos m) ! 0)"
proof -
  have "currentViewIndex (reset_view_index (pos m) (clear_panel s)) = Num 0"
       "lastCellPos (reset_view_index (pos m) (clear_panel s)) = Some (pos m)"
    using assms(3) by (simp_all add: reset_view_index_def view_of_clear)
  then show ?thesis
    using assms(2)
    by (simp add: updateImagePreview_views [OF assms(1,2)] Let_def view_of_switch
                  view_of_shown orientation_of_shown)
qed

lemma updateImagePreview_stay:
  assumes "zone_under L = Some m" and "views_at (pos m) \<noteq> []"
    and "lastCellPos s = Some (pos m)" and "currentViewIndex s = Num i"
  shows "\<exists>s'. updateImagePreview L s = Inr s' \<and> lastCellPos s' = Some (pos m)
           \<and> currentViewIndex s' = Num i
           \<and> sweepDeg s' = angle (views_at (pos m) ! (i mod length (views_at (pos m))))
           \<and> tailPosition s' = tail (views_at (pos m) ! (i mod length (views_at (pos m))))"
proof -
  have "currentViewIndex (reset_view_index (pos m) (clear_panel s)) = Num i"
       "lastCellPos (reset_view_index (pos m) (clear_panel s)) = Some (pos m)"
    using assms(3,4) by (simp_all add: reset_view_index_def view_of_clear)
  then show ?thesis
    using assms(2)
    by (simp add: updateImagePreview_views [OF assms(1,2)] Let_def view_of_switch
                  view_of_shown orientation_of_shown)
qed

lemma updateImagePreview_stay_NaN:
  assumes "zone_under L = Some m" and "views_at (pos m) \<noteq> []"
    and "lastCellPos s = Some (pos m)" and "currentViewIndex s = NaN"
  shows "\<exists>s'. updateImagePreview L s = Inl (TypeError, s') \<and> lastCellPos s' = Some (pos m)
           \<and> currentViewIndex s' = NaN"
proof -
  have "currentViewIndex (reset_view_index (pos m) (clear_panel s)) = NaN"
       "lastCellPos (reset_view_index (pos m) (clear_panel s)) = Some (pos m)"
    using assms(3,4) by (simp_all add: reset_view_index_def view_of_clear)
  then show ?thesis
    by (simp add: updateImagePreview_views [OF assms(1,2)] Let_def view_of_switch)
qed

lemma updateImagePreview_off:
  assumes "zone_under L = None \<or> (\<exists>m. zone_under L = Some m \<and> views_at (pos m) = [])"
  shows "\<exists>s'. updateImagePreview L s = Inr s' \<and> lastCellPos s' = lastCellPos s
           \<and> currentViewIndex s' = currentViewIndex s"
proof -
  have a: "same_view s ((resetProbe (clear_panel s))
                  \<lparr>imagePanel := Message ''Drop the probe on a valid zone to view an image''\<rparr>)"
    by (blast intro: same_view_trans clear_panel_same resetProbe_same imagePanel_same)
  have b: "same_view s ((clear_panel s)
                  \<lparr>imagePanel := Message ''Invalid position for this probe orientation''\<rparr>)"
    by (blast intro: same_view_trans clear_panel_same imagePanel_same)
  from assms show ?thesis
  proof
    assume "zone_under L = None"
    then show ?thesis using a by (simp add: updateImagePreview_None same_view_def)
  next
    assume "\<exists>m. zone_under L = Some m \<and> views_at (pos m) = []"
    then show ?thesis using b by (auto simp: updateImagePreview_no_views same_view_def)
  qed
qed

lemma updateImagePreview_valid:
  assumes "view_index_valid s"
  shows "\<exists>s'. updateImagePreview L s = Inr s' \<and> view_index_valid s'"
proof (cases "\<exists>m. zone_under L = Some m \<and> views_at (pos m) \<noteq> []")
  case False
  then have "zone_under L = None \<or> (\<exists>m. zone_under L = Some m \<and> views_at (pos m) = [])"
    by (cases "zone_under L") auto
  from updateImagePreview_off [OF this, of s]
  obtain s' where s': "updateImagePreview L s = Inr s'" "lastCellPos s' = lastCellPos s"
    "currentViewIndex s' = currentViewIndex s"
    by blast
  from assms s'(2,3) have "view_index_valid s'"
    by (simp add: view_index_valid_def split: option.splits)
  with s'(1) show ?thesis by blast
next
  case True
  then obtain m where m: "zone_under L = Some m" "views_at (pos m) \<noteq> []" by blast
  show ?thesis
  proof (cases "lastCellPos s = Some (pos m)")
    case True
    with assms obtain i where i: "currentViewIndex s = Num i" "i < length (views_at (pos m))"
      by (auto simp: view_index_valid_def split: jsnum.splits)
    from updateImagePreview_stay [OF m True i(1)] i(2) show ?thesis
      by (auto simp: view_index_valid_def)
  next
    case False
    from updateImagePreview_enter [OF m False] m(2) show ?thesis
      by (auto simp: view_index_valid_def)
  qed
qed


section \<open>The zone resolver\<close>

lemma match_cell_find: "match_cell px py cs = find (\<lambda>c. covers c px py) cs"
  by (simp add: match_cell_def covers_def Let_def conj_ac)

lemma strictly_inside_covers: "strictly_inside c px py \<Longrightarrow> covers c px py"
  by (simp add: strictly_inside_def covers_def)

text \<open>
  C3. A point strictly inside a zone's rectangle, and in no other zone's rectangle, resolves
  to that zone; a point in no rectangle resolves to none; in general the resolver returns
  the first zone, in the order of definition, whose rectangle contains the point (borders
  included), and it is a total function: it always returns, a zone or none.
\<close>

theorem match_cell_resolves:
  "(\<forall>c. c \<in> set cs \<and> strictly_inside c px py \<and> (\<forall>c' \<in> set cs. covers c' px py \<longrightarrow> c' = c)
        \<longrightarrow> match_cell px py cs = Some c)
   \<and> ((\<forall>c \<in> set cs. \<not> covers c px py) \<longrightarrow> match_cell px py cs = None)
   \<and> (\<forall>c. match_cell px py cs = Some c \<longleftrightarrow>
          (\<exists>i < length cs. cs ! i = c \<and> covers c px py \<and> (\<forall>j < i. \<not> covers (cs ! j) px py)))"
proof (intro conjI allI impI)
  fix c
  assume h: "c \<in> set cs \<and> strictly_inside c px py \<and> (\<forall>c' \<in> set cs. covers c' px py \<longrightarrow> c' = c)"
  then have "covers c px py" by (simp add: strictly_inside_covers)
  with h obtain d where d: "find (\<lambda>c. covers c px py) cs = Some d"
    by (cases "find (\<lambda>c. covers c px py) cs") (auto simp: find_None_iff)
  then have "d \<in> set cs" "covers d px py"
    by (auto simp: find_Some_iff)
  with h have "d = c" by blast
  with d show "match_cell px py cs = Some c" by (simp add: match_cell_find)
next
  assume "\<forall>c \<in> set cs. \<not> covers c px py"
  then show "match_cell px py cs = None"
    by (simp add: match_cell_find find_None_iff)
next
  fix c
  show "match_cell px py cs = Some c \<longleftrightarrow>
          (\<exists>i < length cs. cs ! i = c \<and> covers c px py \<and> (\<forall>j < i. \<not> covers (cs ! j) px py))"
    unfolding match_cell_find find_Some_iff by auto
qed

theorem match_cell_resolves_witness:
  "match_cell 130 180 example_cells = Some \<lparr>pos = 2, box = square 100 150 60\<rparr>
   \<and> match_cell 0 0 example_cells = None"
proof -
  let ?c = "\<lparr>pos = 2, box = square 100 150 60\<rparr>"
  have h1: "?c \<in> set example_cells \<and> strictly_inside ?c 130 180
              \<and> (\<forall>c' \<in> set example_cells. covers c' 130 180 \<longrightarrow> c' = ?c)"
    by (simp add: example_cells_def strictly_inside_def covers_def square_def)
  have h2: "\<forall>c \<in> set example_cells. \<not> covers c 0 0"
    by (simp add: example_cells_def covers_def square_def)
  from match_cell_resolves [of example_cells 130 180] h1
  have "match_cell 130 180 example_cells = Some ?c" by blast
  moreover from match_cell_resolves [of example_cells 0 0] h2
  have "match_cell 0 0 example_cells = None" by blast
  ultimately show ?thesis by simp
qed

section \<open>Scoring\<close>

lemma circle_click_feedback:
  assumes "\<not> isSandBoxActive s" and "at_index quizData (currentQuestionIndex s) = Some q"
    and "isFeedbackActive s"
  shows "circle_click p c s =
           Inr (s\<lparr>feedbackBoxHidden := False, containerOverlayHidden := False,
                  questionTitleScreenHidden := True, isSimulatorActive := False\<rparr>)"
proof -
  have "s\<lparr>isFeedbackActive := True\<rparr> = s" using assms(3) by simp
  then show ?thesis using assms by (simp add: circle_click_def Let_def)
qed

lemma circle_click_quiz:
  assumes "\<not> isSandBoxActive s" and "at_index quizData (currentQuestionIndex s) = Some q"
  shows "\<exists>s'. circle_click p c s = Inr s'
           \<and> score s' = (if p = correctPosition q \<and> answer c = correctAnswer q
                             \<and> \<not> isFeedbackActive s then score s + 1 else score s)
           \<and> isFeedbackActive s' \<and> \<not> isSandBoxActive s'
           \<and> currentQuestionIndex s' = currentQuestionIndex s"
  using assms by (simp add: circle_click_def Let_def)

lemma circle_click_flags:
  assumes "\<not> isSandBoxActive s" and "at_index quizData (currentQuestionIndex s) = Some q"
    and "circle_click p c s = Inr s'"
  shows "feedbackBoxHidden s' = False \<and> containerOverlayHidden s' = False
           \<and> questionTitleScreenHidden s' = True \<and> isSimulatorActive s' = False"
  using assms by (auto simp: circle_click_def Let_def)

lemma circle_click_twice:
  assumes "\<not> isSandBoxActive s" and "at_index quizData (currentQuestionIndex s) = Some q"
    and "circle_click p c s = Inr s'"
  shows "circle_click p2 c2 s' = Inr s'"
proof -
  from circle_click_quiz [OF assms(1,2), of p c] assms(3)
  have a: "isFeedbackActive s'" "\<not> isSandBoxActive s'"
    "at_index quizData (currentQuestionIndex s') = Some q"
    using assms(2) by auto
  have "circle_click p2 c2 s' =
           Inr (s'\<lparr>feedbackBoxHidden := False, containerOverlayHidden := False,
                  questionTitleScreenHidden := True, isSimulatorActive := False\<rparr>)"
    by (rule circle_click_feedback [OF a(2) a(3) a(1)])
  also have "s'\<lparr>feedbackBoxHidden := False, containerOverlayHidden := False,
                  questionTitleScreenHidden := True, isSimulatorActive := False\<rparr>
             = s'\<lparr>feedbackBoxHidden := feedbackBoxHidden s',
                  containerOverlayHidden := containerOverlayHidden s',
                  questionTitleScreenHidden := questionTitleScreenHidden s',
                  isSimulatorActive := isSimulatorActive s'\<rparr>"
    by (simp only: circle_click_flags [OF assms])
  also have "\<dots> = s'" by simp
  finally show ?thesis .
qed

lemma clicks_feedback:
  assumes "\<not> isSandBoxActive s" and "at_index quizData (currentQuestionIndex s) = Some q"
    and "isFeedbackActive s"
  shows "\<exists>s'. clicks cs s = Inr s' \<and> score s' = score s \<and> isFeedbackActive s'
           \<and> \<not> isSandBoxActive s' \<and> currentQuestionIndex s' = currentQuestionIndex s"
  using assms
proof (induction cs arbitrary: s)
  case Nil
  then show ?case by simp
next
  case (Cons pc cs)
  from circle_click_quiz [OF Cons.prems(1,2), of "fst pc" "snd pc"] Cons.prems(3)
  obtain s1 where s1: "circle_click (fst pc) (snd pc) s = Inr s1" "score s1 = score s"
    "isFeedbackActive s1" "\<not> isSandBoxActive s1" "currentQuestionIndex s1 = currentQuestionIndex s"
    by auto
  from s1 Cons.prems(2) have q: "at_index quizData (currentQuestionIndex s1) = Some q" by simp
  from Cons.IH [OF s1(4) q s1(3)] s1(1,2,5) show ?case by simp
qed

lemma clicks_quiz:
  assumes "\<not> isSandBoxActive s" and "at_index quizData (currentQuestionIndex s) = Some q"
  shows "\<exists>s'. clicks cs s = Inr s' \<and> score s \<le> score s'
           \<and> score s' \<le> score s + (if isFeedbackActive s then 0 else 1)
           \<and> score s' = score s + (if first_click_matches q cs \<and> \<not> isFeedbackActive s then 1 else 0)
           \<and> \<not> isSandBoxActive s' \<and> currentQuestionIndex s' = currentQuestionIndex s"
proof (cases cs)
  case Nil
  then show ?thesis using assms by (simp add: first_click_matches_def)
next
  case (Cons pc rest)
  from circle_click_quiz [OF assms, of "fst pc" "snd pc"]
  obtain s1 where s1: "circle_click (fst pc) (snd pc) s = Inr s1"
    "score s1 = (if fst pc = correctPosition q \<and> answer (snd pc) = correctAnswer q
                             \<and> \<not> isFeedbackActive s then score s + 1 else score s)"
    "isFeedbackActive s1" "\<not> isSandBoxActive s1" "currentQuestionIndex s1 = currentQuestionIndex s"
    by auto
  from s1 assms(2) have q: "at_index quizData (currentQuestionIndex s1) = Some q" by simp
  from clicks_feedback [OF s1(4) q s1(3), of rest]
  obtain s' where s': "clicks rest s1 = Inr s'" "score s' = score s1" "\<not> isSandBoxActive s'"
    "currentQuestionIndex s' = currentQuestionIndex s1"
    by blast
  have "clicks cs s = Inr s'" using Cons s1(1) s'(1) by simp
  moreover have "score s' = score s + (if first_click_matches q cs \<and> \<not> isFeedbackActive s then 1 else 0)"
    using s'(2) s1(2) Cons by (simp add: first_click_matches_def)
  ultimately show ?thesis using s'(3,4) s1(5) by auto
qed

text \<open>
  C1. In quiz mode, on a question that exists: a marker click returns, turns the feedback
  on, and adds 1 to the score exactly when the position of the click is the question's
  correct position, the circle's answer tag is the question's correct answer and the
  feedback was off; any further click then leaves the whole state as it is. Over any run
  of marker clicks the score grows by at most 1, and by nothing when the feedback was
  already on.
\<close>

theorem score_once_per_question:
  assumes "\<not> isSandBoxActive s" and "at_index quizData (currentQuestionIndex s) = Some q"
  shows "(\<exists>s'. circle_click p c s = Inr s' \<and> isFeedbackActive s'
            \<and> score s' = (if p = correctPosition q \<and> answer c = correctAnswer q
                              \<and> \<not> isFeedbackActive s then score s + 1 else score s)
            \<and> (\<forall>p2 c2. circle_click p2 c2 s' = Inr s'))
         \<and> (\<exists>s'. clicks cs s = Inr s' \<and> score s \<le> score s'
            \<and> score s' \<le> score s + (if isFeedbackActive s then 0 else 1))"
proof
  from circle_click_quiz [OF assms, of p c]
  obtain s' where s': "circle_click p c s = Inr s'" "isFeedbackActive s'"
    "score s' = (if p = correctPosition q \<and> answer c = correctAnswer q
                              \<and> \<not> isFeedbackActive s then score s + 1 else score s)"
    by blast
  have "\<forall>p2 c2. circle_click p2 c2 s' = Inr s'"
    using circle_click_twice [OF assms s'(1)] by blast
  with s' show "\<exists>s'. circle_click p c s = Inr s' \<and> isFeedbackActive s'
            \<and> score s' = (if p = correctPosition q \<and> answer c = correctAnswer q
                              \<and> \<not> isFeedbackActive s then score s + 1 else score s)
            \<and> (\<forall>p2 c2. circle_click p2 c2 s' = Inr s')"
    by blast
next
  from clicks_quiz [OF assms, of cs]
  show "\<exists>s'. clicks cs s = Inr s' \<and> score s \<le> score s'
            \<and> score s' \<le> score s + (if isFeedbackActive s then 0 else 1)"
    by blast
qed

theorem score_once_per_question_witness:
  "\<not> isSandBoxActive initial_state
   \<and> at_index quizData (currentQuestionIndex initial_state) = Some (quizData ! 0)
   \<and> (\<exists>s'. clicks [(2, circle_G), (2, circle_G), (2, circle_G)] initial_state = Inr s'
          \<and> score s' \<le> 1)"
proof -
  have h1: "\<not> isSandBoxActive initial_state" by (simp add: initial_state_def)
  have h2: "at_index quizData (currentQuestionIndex initial_state) = Some (quizData ! 0)"
    by (simp add: initial_state_def at_index_def quizData_def)
  have z: "score initial_state = 0" "\<not> isFeedbackActive initial_state"
    by (simp_all add: initial_state_def)
  from score_once_per_question [OF h1 h2, of 2 circle_G "[(2, circle_G), (2, circle_G), (2, circle_G)]"]
  have "\<exists>s'. clicks [(2, circle_G), (2, circle_G), (2, circle_G)] initial_state = Inr s'
          \<and> score s' \<le> 1"
    using z by auto
  with h1 h2 show ?thesis by blast
qed

section \<open>The view state\<close>

text \<open>
  C4. A position update over a zone that has views: when the zone is not the remembered
  one (the zone last shown, \<open>lastCellPos\<close>), the update returns with that zone remembered
  and the view index 0; when it is the remembered one, the zone and the view index are
  left as they were (also if the handler throws, which it does not when the index is a
  number).
\<close>

theorem position_update_zone_change:
  assumes "zone_under L = Some m" and "views_at (pos m) \<noteq> []"
  shows "(lastCellPos s \<noteq> Some (pos m) \<longrightarrow>
            (\<exists>s'. position_update L s = Inr s' \<and> lastCellPos s' = Some (pos m)
                  \<and> currentViewIndex s' = Num 0))
         \<and> (lastCellPos s = Some (pos m) \<longrightarrow>
              lastCellPos (state_after (position_update L s)) = Some (pos m)
              \<and> currentViewIndex (state_after (position_update L s)) = currentViewIndex s
              \<and> (\<forall>i. currentViewIndex s = Num i \<longrightarrow> (\<exists>s'. position_update L s = Inr s')))"
proof (intro conjI impI allI)
  assume "lastCellPos s \<noteq> Some (pos m)"
  from updateImagePreview_enter [OF assms this]
  show "\<exists>s'. position_update L s = Inr s' \<and> lastCellPos s' = Some (pos m)
                  \<and> currentViewIndex s' = Num 0"
    by (auto simp: position_update_def)
next
  assume same: "lastCellPos s = Some (pos m)"
  show "lastCellPos (state_after (position_update L s)) = Some (pos m)"
  proof (cases "currentViewIndex s")
    case (Num i)
    from updateImagePreview_stay [OF assms same Num] show ?thesis
      by (auto simp: position_update_def)
  next
    case NaN
    from updateImagePreview_stay_NaN [OF assms same NaN] show ?thesis
      by (auto simp: position_update_def)
  qed
  show "currentViewIndex (state_after (position_update L s)) = currentViewIndex s"
  proof (cases "currentViewIndex s")
    case (Num i)
    from updateImagePreview_stay [OF assms same Num] Num show ?thesis
      by (auto simp: position_update_def)
  next
    case NaN
    from updateImagePreview_stay_NaN [OF assms same NaN] NaN show ?thesis
      by (auto simp: position_update_def)
  qed
  fix i assume "currentViewIndex s = Num i"
  from updateImagePreview_stay [OF assms same this]
  show "\<exists>s'. position_update L s = Inr s'"
    by (auto simp: position_update_def)
qed

theorem position_update_zone_change_witness:
  "zone_under (probe_at 130 180) = Some \<lparr>pos = 2, box = square 100 150 60\<rparr>
   \<and> views_at 2 \<noteq> []
   \<and> lastCellPos initial_state \<noteq> Some 2
   \<and> (\<exists>s'. position_update (probe_at 130 180) initial_state = Inr s' \<and> lastCellPos s' = Some 2
            \<and> currentViewIndex s' = Num 0)
   \<and> lastCellPos (initial_state\<lparr>lastCellPos := Some 2, currentViewIndex := Num 1\<rparr>) = Some 2
   \<and> currentViewIndex (state_after (position_update (probe_at 130 180)
         (initial_state\<lparr>lastCellPos := Some 2, currentViewIndex := Num 1\<rparr>))) = Num 1"
proof -
  let ?m = "\<lparr>pos = 2, box = square 100 150 60\<rparr>"
  let ?s = "initial_state\<lparr>lastCellPos := Some 2, currentViewIndex := Num 1\<rparr>"
  have h1: "zone_under (probe_at 130 180) = Some ?m" by (rule zone_under_zone2)
  have h2: "views_at (pos ?m) \<noteq> []" by (simp add: views_at_simps)
  have h3: "lastCellPos initial_state \<noteq> Some (pos ?m)" by (simp add: initial_state_def)
  have h4: "lastCellPos ?s = Some (pos ?m)" by simp
  from position_update_zone_change [OF h1 h2, of initial_state] h3
  have a: "\<exists>s'. position_update (probe_at 130 180) initial_state = Inr s' \<and> lastCellPos s' = Some 2
            \<and> currentViewIndex s' = Num 0"
    by simp
  from position_update_zone_change [OF h1 h2, of ?s] h4
  have b: "currentViewIndex (state_after (position_update (probe_at 130 180) ?s)) = Num 1"
    by simp
  from h1 h2 h3 h4 a b show ?thesis by simp
qed


lemma no_zone_state:
  "(resetProbe (clear_panel s))\<lparr>imagePanel := Message ''Drop the probe on a valid zone to view an image''\<rparr>
   = s\<lparr>imagePanel := Message ''Drop the probe on a valid zone to view an image'',
        partDisplay := ''-'', toggleButtonHidden := True, showAnswerButtonHidden := True,
        nextQuestionButtonHidden := True, correctAnswerImageHidden := True,
        sweepDeg := 90, tailPosition := down, rotationDisplay := ''3 o'clock'',
        viewDisplay := ''-'', tailDisplay := ''Tail Down'',
        probeImgSrc := ''./images/probe_tail_down.png'', probeTransform := (90, True)\<rparr>"
  by (simp add: resetProbe_def clear_panel_def setProbeTailImage_def probeImages_def)

lemma updateImagePreview_changes_index:
  assumes "updateImagePreview L s = Inr s'" and "currentViewIndex s' \<noteq> currentViewIndex s"
  shows "\<exists>m. zone_under L = Some m \<and> views_at (pos m) \<noteq> [] \<and> lastCellPos s \<noteq> Some (pos m)
           \<and> currentViewIndex s' = Num 0 \<and> lastCellPos s' = Some (pos m)"
proof (cases "\<exists>m. zone_under L = Some m \<and> views_at (pos m) \<noteq> []")
  case False
  then have "zone_under L = None \<or> (\<exists>m. zone_under L = Some m \<and> views_at (pos m) = [])"
    by (cases "zone_under L") auto
  from updateImagePreview_off [OF this, of s] assms show ?thesis by auto
next
  case True
  then obtain m where m: "zone_under L = Some m" "views_at (pos m) \<noteq> []" by blast
  show ?thesis
  proof (cases "lastCellPos s = Some (pos m)")
    case True
    show ?thesis
    proof (cases "currentViewIndex s")
      case (Num i)
      from updateImagePreview_stay [OF m True Num] assms Num show ?thesis by auto
    next
      case NaN
      from updateImagePreview_stay_NaN [OF m True NaN] assms show ?thesis by auto
    qed
  next
    case False
    from updateImagePreview_enter [OF m False] assms m False show ?thesis by auto
  qed
qed

text \<open>
  C9. A position update that resolves to no zone returns the state with exactly these
  changes: the panel shows the prompt, the controls are hidden, and the orientation is
  reset (sweep 90, tail down, the default displays, the probe's image and transform). The
  remembered zone and the view index are as before. Hence moving off all zones and back
  onto the remembered zone leaves the view index where it was; and a position update
  changes the view index only when it resolves to a zone other than the remembered one,
  which it then remembers with index 0.
\<close>

theorem no_zone_keeps_view:
  assumes "zone_under L = None"
  shows "position_update L s =
           Inr (s\<lparr>imagePanel := Message ''Drop the probe on a valid zone to view an image'',
                  partDisplay := ''-'', toggleButtonHidden := True, showAnswerButtonHidden := True,
                  nextQuestionButtonHidden := True, correctAnswerImageHidden := True,
                  sweepDeg := 90, tailPosition := down, rotationDisplay := ''3 o'clock'',
                  viewDisplay := ''-'', tailDisplay := ''Tail Down'',
                  probeImgSrc := ''./images/probe_tail_down.png'',
                  probeTransform := (90, True)\<rparr>)
         \<and> lastCellPos (state_after (position_update L s)) = lastCellPos s
         \<and> currentViewIndex (state_after (position_update L s)) = currentViewIndex s
         \<and> (\<forall>L2 m i. zone_under L2 = Some m \<and> views_at (pos m) \<noteq> []
                \<and> lastCellPos s = Some (pos m) \<and> currentViewIndex s = Num i \<longrightarrow>
              (\<exists>s2. then_do (position_update L s) (position_update L2) = Inr s2
                    \<and> lastCellPos s2 = Some (pos m) \<and> currentViewIndex s2 = Num i))
         \<and> (\<forall>L3 s3. position_update L3 s = Inr s3 \<and> currentViewIndex s3 \<noteq> currentViewIndex s \<longrightarrow>
              (\<exists>m. zone_under L3 = Some m \<and> lastCellPos s \<noteq> Some (pos m)
                    \<and> lastCellPos s3 = Some (pos m) \<and> currentViewIndex s3 = Num 0))"
proof -
  let ?s1 = "s\<lparr>imagePanel := Message ''Drop the probe on a valid zone to view an image'',
                  partDisplay := ''-'', toggleButtonHidden := True, showAnswerButtonHidden := True,
                  nextQuestionButtonHidden := True, correctAnswerImageHidden := True,
                  sweepDeg := 90, tailPosition := down, rotationDisplay := ''3 o'clock'',
                  viewDisplay := ''-'', tailDisplay := ''Tail Down'',
                  probeImgSrc := ''./images/probe_tail_down.png'',
                  probeTransform := (90, True)\<rparr>"
  have eq: "position_update L s = Inr ?s1"
    by (simp only: position_update_def updateImagePreview_None [OF assms] no_zone_state)
  have v: "lastCellPos ?s1 = lastCellPos s" "currentViewIndex ?s1 = currentViewIndex s"
    by simp_all
  have returns: "\<exists>s2. then_do (position_update L s) (position_update L2) = Inr s2
                    \<and> lastCellPos s2 = Some (pos m) \<and> currentViewIndex s2 = Num i"
    if h: "zone_under L2 = Some m \<and> views_at (pos m) \<noteq> []
                \<and> lastCellPos s = Some (pos m) \<and> currentViewIndex s = Num i" for L2 m i
  proof -
    from h v have "lastCellPos ?s1 = Some (pos m)" "currentViewIndex ?s1 = Num i" by simp_all
    from updateImagePreview_stay [OF _ _ this] h
    have "\<exists>s2. updateImagePreview L2 ?s1 = Inr s2
                    \<and> lastCellPos s2 = Some (pos m) \<and> currentViewIndex s2 = Num i"
      by blast
    then show ?thesis unfolding eq then_do_Inr unfolding position_update_def .
  qed
  have resets: "\<exists>m. zone_under L3 = Some m \<and> lastCellPos s \<noteq> Some (pos m)
                    \<and> lastCellPos s3 = Some (pos m) \<and> currentViewIndex s3 = Num 0"
    if h: "position_update L3 s = Inr s3 \<and> currentViewIndex s3 \<noteq> currentViewIndex s" for L3 s3
    using updateImagePreview_changes_index [of L3 s s3] h
    by (auto simp: position_update_def)
  from eq v returns resets show ?thesis
    by (simp only: state_after_simps) blast
qed

theorem no_zone_keeps_view_witness:
  "zone_under (probe_at 400 400) = None
   \<and> currentViewIndex (state_after (position_update (probe_at 400 400)
         (initial_state\<lparr>lastCellPos := Some 2, currentViewIndex := Num 1\<rparr>))) = Num 1
   \<and> (\<exists>s2. then_do (position_update (probe_at 400 400)
                  (initial_state\<lparr>lastCellPos := Some 2, currentViewIndex := Num 1\<rparr>))
               (position_update (probe_at 130 180)) = Inr s2
          \<and> lastCellPos s2 = Some 2 \<and> currentViewIndex s2 = Num 1)
   \<and> (\<exists>s3. position_update (probe_at 130 80)
               (initial_state\<lparr>lastCellPos := Some 2, currentViewIndex := Num 1\<rparr>) = Inr s3
          \<and> lastCellPos s3 = Some 1 \<and> currentViewIndex s3 = Num 0)"
proof -
  let ?s = "initial_state\<lparr>lastCellPos := Some 2, currentViewIndex := Num 1\<rparr>"
  let ?m = "\<lparr>pos = 2, box = square 100 150 60\<rparr>"
  let ?m1 = "\<lparr>pos = 1, box = square 100 50 60\<rparr>"
  have h: "zone_under (probe_at 400 400) = None" by (rule zone_under_nowhere)
  note t = no_zone_keeps_view [OF h, of ?s]
  have a: "currentViewIndex (state_after (position_update (probe_at 400 400) ?s)) = Num 1"
    using t by simp
  have h2: "zone_under (probe_at 130 180) = Some ?m \<and> views_at (pos ?m) \<noteq> []
              \<and> lastCellPos ?s = Some (pos ?m) \<and> currentViewIndex ?s = Num 1"
    by (simp add: zone_under_zone2 views_at_simps)
  from t h2 have b: "\<exists>s2. then_do (position_update (probe_at 400 400) ?s)
               (position_update (probe_at 130 180)) = Inr s2
          \<and> lastCellPos s2 = Some (pos ?m) \<and> currentViewIndex s2 = Num 1"
    by blast
  have "lastCellPos ?s \<noteq> Some (pos ?m1)" "views_at (pos ?m1) \<noteq> []"
    by (simp_all add: views_at_def cellOrientationMap_def)
  from updateImagePreview_enter [OF zone_under_zone1 this(2,1)]
  obtain s3 where s3: "position_update (probe_at 130 80) ?s = Inr s3"
    "currentViewIndex s3 = Num 0"
    by (auto simp: position_update_def)
  then have h3: "position_update (probe_at 130 80) ?s = Inr s3
                   \<and> currentViewIndex s3 \<noteq> currentViewIndex ?s"
    by simp
  from t h3 have "\<exists>m. zone_under (probe_at 130 80) = Some m \<and> lastCellPos ?s \<noteq> Some (pos m)
                    \<and> lastCellPos s3 = Some (pos m) \<and> currentViewIndex s3 = Num 0"
    by blast
  then have c: "\<exists>s3. position_update (probe_at 130 80) ?s = Inr s3
          \<and> lastCellPos s3 = Some 1 \<and> currentViewIndex s3 = Num 0"
    using s3(1) by (auto simp: zone_under_zone1)
  from h a b c show ?thesis by simp
qed

section \<open>The view index stays valid\<close>

lemma view_index_valid_cong:
  assumes "lastCellPos s' = lastCellPos s" and "currentViewIndex s' = currentViewIndex s"
  shows "view_index_valid s' = view_index_valid s"
  using assms by (simp add: view_index_valid_def split: option.splits)

lemma applyProbeTransform_same:
  "same_quiz s (applyProbeTransform s)" "same_view s (applyProbeTransform s)"
  by (simp_all add: same_quiz_def same_view_def applyProbeTransform_def)

lemma same_view_valid: "same_view s s' \<Longrightarrow> view_index_valid s' = view_index_valid s"
  unfolding same_view_def by (rule view_index_valid_cong) simp_all

lemma loadQuestion_valid:
  assumes "view_index_valid s" and "at_index quizData (currentQuestionIndex s) = Some q"
  shows "\<exists>s'. loadQuestion L s = Inr s' \<and> view_index_valid s'
           \<and> score s' = score s \<and> currentQuestionIndex s' = currentQuestionIndex s
           \<and> isFeedbackActive s' = isFeedbackActive s \<and> isSandBoxActive s' = isSandBoxActive s
           \<and> endScreenHidden s' = endScreenHidden s \<and> finalScore s' = finalScore s
           \<and> confetti s' = confetti s \<and> questionBox s' = question q
           \<and> questionNumber s' = (currentQuestionIndex s + 1, length quizData)"
proof -
  let ?s1 = "s\<lparr>questionNumber := (currentQuestionIndex s + 1, length quizData),
                  questionText := question q,
                  currentQuestion := currentQuestionIndex s + 1,
                  questionBox := question q\<rparr>"
  have "view_index_valid ?s1 = view_index_valid s"
    by (rule view_index_valid_cong) simp_all
  with assms(1) have "view_index_valid ?s1" by simp
  from updateImagePreview_valid [OF this, of L]
  obtain s2 where s2: "updateImagePreview L ?s1 = Inr s2" "view_index_valid s2" by blast
  from updateImagePreview_same_quiz [OF s2(1)] have q2: "same_quiz ?s1 s2" .
  have "loadQuestion L s = Inr (applyProbeTransform s2)"
    using assms(2) s2(1) by (simp add: loadQuestion_def)
  moreover have "view_index_valid (applyProbeTransform s2)"
    using s2(2) same_view_valid [OF applyProbeTransform_same(2), of s2] by simp
  moreover have "same_quiz ?s1 (applyProbeTransform s2)"
    using q2 applyProbeTransform_same(1) by (rule same_quiz_trans)
  ultimately show ?thesis by (simp add: same_quiz_def)
qed

lemma toggle_click_valid:
  assumes "view_index_valid s"
  shows "\<exists>s'. toggle_click L s = Inr s' \<and> view_index_valid s'"
proof -
  let ?views = "case lastCellPos s of None \<Rightarrow> [] | Some p \<Rightarrow> views_at p"
  let ?s1 = "s\<lparr>currentViewIndex := js_mod (js_succ (currentViewIndex s)) (length ?views)\<rparr>"
  have "view_index_valid ?s1"
    using assms by (auto simp: view_index_valid_def split: option.splits jsnum.splits)
  from updateImagePreview_valid [OF this, of L] show ?thesis
    by (simp add: toggle_click_def Let_def)
qed

lemma restartButton_click_valid:
  "\<exists>s'. restartButton_click L s = Inr s' \<and> view_index_valid s'"
proof -
  let ?s1 = "s\<lparr>currentQuestionIndex := 0, score := 0, sweepDeg := 90, tailPosition := down,
          currentViewIndex := Num 0, lastCellPos := None,
          endScreenHidden := True, titleScreenHidden := False,
          probeTransform := (0, False), confetti := 0\<rparr>"
  have v: "view_index_valid ?s1" by (simp add: view_index_valid_def)
  have q: "at_index quizData (currentQuestionIndex ?s1) = Some (quizData ! 0)"
    by (simp add: at_index_def quizData_def)
  from loadQuestion_valid [OF v q, of L] show ?thesis
    by (auto simp: restartButton_click_def)
qed

lemma views_at_length: "length (views_at p) = (if p = 2 then 3 else if p = 1 \<or> p = 3 \<or> p = 4 then 1 else 0)"
  by (simp add: views_at_def cellOrientationMap_def)

text \<open>The handlers that enter a mode or leave to the menu keep it valid as well, and the
  script starts with it valid.\<close>

lemma loadQuestion_keeps_valid:
  assumes "view_index_valid s"
  shows "\<exists>s'. loadQuestion L s = Inr s' \<and> view_index_valid s'"
proof (cases "at_index quizData (currentQuestionIndex s)")
  case None
  have "view_index_valid (s\<lparr>questionBox := ''No question found.''\<rparr>) = view_index_valid s"
    by (rule view_index_valid_cong) simp_all
  with assms None show ?thesis by (simp add: loadQuestion_def)
next
  case (Some q)
  from loadQuestion_valid [OF assms Some, of L] show ?thesis by blast
qed

lemma initUI_keeps_valid:
  assumes "view_index_valid s"
  shows "\<exists>s'. initUI L s = Inr s' \<and> view_index_valid s'"
proof -
  from loadQuestion_keeps_valid [OF assms, of L]
  obtain s1 where s1: "loadQuestion L s = Inr s1" "view_index_valid s1" by blast
  have "view_index_valid (s1\<lparr>sweepDeg := 90, rotationDisplay := ''3 o'clock'',
                      tailDisplay := ''Tail Down'', viewDisplay := ''-''\<rparr>) = view_index_valid s1"
    by (rule view_index_valid_cong) simp_all
  with s1 show ?thesis by (simp add: initUI_def)
qed

lemma mode_entry_keeps_valid:
  assumes "view_index_valid s"
  shows "\<exists>s'. startButton_click L s = Inr s' \<and> view_index_valid s'"
    and "\<exists>s'. sandBoxButton_click L s = Inr s' \<and> view_index_valid s'"
    and "\<exists>s'. continueButton_click L s = Inr s' \<and> view_index_valid s'"
    and "view_index_valid (confirmExitButton_click s)"
proof -
  have a: "view_index_valid (s\<lparr>titleScreenHidden := True, questionTitleScreenHidden := False,
          gameStarted := True, currentQuestionIndex := 0, score := 0\<rparr>) = view_index_valid s"
    by (rule view_index_valid_cong) simp_all
  from loadQuestion_keeps_valid [of _ L] a assms
  show "\<exists>s'. startButton_click L s = Inr s' \<and> view_index_valid s'"
    by (simp add: startButton_click_def)
  have b: "view_index_valid (s\<lparr>titleScreenHidden := True, containerHidden := False,
                    isSimulatorActive := False, isSandBoxActive := True\<rparr>) = view_index_valid s"
    by (rule view_index_valid_cong) simp_all
  with assms initUI_keeps_valid [of _ L]
  obtain s1 where s1: "initUI L (s\<lparr>titleScreenHidden := True, containerHidden := False,
                    isSimulatorActive := False, isSandBoxActive := True\<rparr>) = Inr s1"
    "view_index_valid s1"
    by blast
  from updateImagePreview_valid [OF s1(2), of L]
  obtain s2 where s2: "updateImagePreview L s1 = Inr s2" "view_index_valid s2" by blast
  from loadQuestion_keeps_valid [OF s2(2), of L] s1(1) s2(1)
  show "\<exists>s'. sandBoxButton_click L s = Inr s' \<and> view_index_valid s'"
    by (simp add: sandBoxButton_click_def)
  have c: "view_index_valid (s\<lparr>feedbackBoxHidden := True, questionTitleScreenHidden := True,
                    containerHidden := False, isSimulatorActive := True\<rparr>) = view_index_valid s"
    by (rule view_index_valid_cong) simp_all
  with assms initUI_keeps_valid [of _ L]
  obtain t1 where t1: "initUI L (s\<lparr>feedbackBoxHidden := True, questionTitleScreenHidden := True,
                    containerHidden := False, isSimulatorActive := True\<rparr>) = Inr t1"
    "view_index_valid t1"
    by blast
  from updateImagePreview_valid [OF t1(2), of L]
  obtain t2 where t2: "updateImagePreview L t1 = Inr t2" "view_index_valid t2" by blast
  from loadQuestion_keeps_valid [OF t2(2), of L] t1(1) t2(1)
  show "\<exists>s'. continueButton_click L s = Inr s' \<and> view_index_valid s'"
    by (simp add: continueButton_click_def)
  have "view_index_valid (confirmExitButton_click s) = view_index_valid s"
    by (rule view_index_valid_cong) (simp_all add: confirmExitButton_click_def)
  with assms show "view_index_valid (confirmExitButton_click s)" by simp
qed

lemma initial_state_valid: "view_index_valid initial_state"
  by (simp add: view_index_valid_def initial_state_def)

text \<open>
  C10. When the view index is a valid index into the views of the remembered zone (or no
  zone is remembered), then a position update, a click on the toggle button and a restart
  each return, without throwing, a state where this holds again. In such a state with a
  remembered zone, \<open>currentViewIndex % views.length\<close> is the index itself, so the view
  shown is \<open>views[currentViewIndex]\<close>; and the index is 2 only when the remembered
  zone is zone 2, the one with three views.
\<close>

theorem view_index_stays_valid:
  assumes "view_index_valid s"
  shows "(\<exists>s'. position_update L s = Inr s' \<and> view_index_valid s')
         \<and> (\<exists>s'. toggle_click L s = Inr s' \<and> view_index_valid s')
         \<and> (\<exists>s'. restartButton_click L s = Inr s' \<and> view_index_valid s')
         \<and> (\<forall>p. lastCellPos s = Some p \<longrightarrow>
               (\<exists>i. currentViewIndex s = Num i \<and> i < length (views_at p)
                    \<and> js_mod (currentViewIndex s) (length (views_at p)) = Num i
                    \<and> views_at p ! (i mod length (views_at p)) = views_at p ! i)
               \<and> (currentViewIndex s = Num 2 \<longrightarrow> p = 2 \<and> length (views_at p) = 3))"
proof (intro conjI allI impI)
  show "\<exists>s'. position_update L s = Inr s' \<and> view_index_valid s'"
    using updateImagePreview_valid [OF assms, of L] by (simp add: position_update_def)
  show "\<exists>s'. toggle_click L s = Inr s' \<and> view_index_valid s'"
    by (rule toggle_click_valid [OF assms])
  show "\<exists>s'. restartButton_click L s = Inr s' \<and> view_index_valid s'"
    by (rule restartButton_click_valid)
next
  fix p assume p: "lastCellPos s = Some p"
  with assms obtain i where i: "currentViewIndex s = Num i" "i < length (views_at p)"
    by (auto simp: view_index_valid_def split: jsnum.splits)
  then show "\<exists>i. currentViewIndex s = Num i \<and> i < length (views_at p)
                    \<and> js_mod (currentViewIndex s) (length (views_at p)) = Num i
                    \<and> views_at p ! (i mod length (views_at p)) = views_at p ! i"
    by auto
  assume "currentViewIndex s = Num 2"
  with i have "2 < length (views_at p)" by simp
  then show "p = 2" "length (views_at p) = 3"
    by (simp_all add: views_at_length split: if_splits)
qed

theorem view_index_stays_valid_witness:
  "view_index_valid (initial_state\<lparr>lastCellPos := Some 2, currentViewIndex := Num 2\<rparr>)
   \<and> (\<exists>s'. toggle_click (probe_at 130 180)
               (initial_state\<lparr>lastCellPos := Some 2, currentViewIndex := Num 2\<rparr>) = Inr s'
          \<and> view_index_valid s')
   \<and> js_mod (Num 2) (length (views_at 2)) = Num 2
   \<and> length (views_at 2) = 3"
proof -
  let ?s = "initial_state\<lparr>lastCellPos := Some 2, currentViewIndex := Num 2\<rparr>"
  have h: "view_index_valid ?s" by (simp add: view_index_valid_def views_at_simps)
  have h2: "lastCellPos ?s = Some 2" "currentViewIndex ?s = Num 2" by simp_all
  note t = view_index_stays_valid [OF h, of "probe_at 130 180"]
  from t have a: "\<exists>s'. toggle_click (probe_at 130 180) ?s = Inr s' \<and> view_index_valid s'"
    by blast
  from t h2 have b: "length (views_at 2) = 3" by blast
  from t h2 have "\<exists>i. currentViewIndex ?s = Num i
                    \<and> js_mod (currentViewIndex ?s) (length (views_at 2)) = Num i"
    by blast
  then have c: "js_mod (Num 2) (length (views_at 2)) = Num 2" by simp
  from h a b c show ?thesis by simp
qed

section \<open>Cycling through the views of a zone\<close>

lemma toggle_click_step:
  assumes "lastCellPos s = Some p" and "currentViewIndex s = Num i" and "views_at p \<noteq> []"
    and "\<exists>m. zone_under L = Some m \<and> pos m = p"
  shows "\<exists>s'. toggle_click L s = Inr s' \<and> lastCellPos s' = Some p
           \<and> currentViewIndex s' = Num ((i + 1) mod length (views_at p))
           \<and> sweepDeg s' = angle (views_at p ! ((i + 1) mod length (views_at p)))
           \<and> tailPosition s' = tail (views_at p ! ((i + 1) mod length (views_at p)))"
proof -
  from assms(4) obtain m where m: "zone_under L = Some m" "pos m = p" by blast
  let ?n = "length (views_at p)"
  let ?s1 = "s\<lparr>currentViewIndex := Num ((i + 1) mod ?n)\<rparr>"
  have eq: "toggle_click L s = updateImagePreview L ?s1"
    using assms(1,2,3) by (simp add: toggle_click_def Let_def)
  have a: "views_at (pos m) \<noteq> []" "lastCellPos ?s1 = Some (pos m)"
    "currentViewIndex ?s1 = Num ((i + 1) mod ?n)"
    using assms(1,3) m(2) by simp_all
  from updateImagePreview_stay [OF m(1) a] show ?thesis
    unfolding eq using m(2) by simp
qed

lemma toggle_clicks_run:
  assumes "lastCellPos s = Some p" and "currentViewIndex s = Num i" and "i < length (views_at p)"
    and "\<forall>L \<in> set Ls. \<exists>m. zone_under L = Some m \<and> pos m = p"
  shows "\<exists>s'. toggle_clicks Ls s = Inr s' \<and> lastCellPos s' = Some p
           \<and> currentViewIndex s' = Num ((i + length Ls) mod length (views_at p))"
  using assms
proof (induction Ls arbitrary: s i)
  case Nil
  then show ?case by simp
next
  case (Cons L Ls)
  let ?n = "length (views_at p)"
  from Cons.prems(3) have ne: "views_at p \<noteq> []" by auto
  from Cons.prems(4) have L: "\<exists>m. zone_under L = Some m \<and> pos m = p" by simp
  from toggle_click_step [OF Cons.prems(1,2) ne L]
  obtain s1 where s1: "toggle_click L s = Inr s1" "lastCellPos s1 = Some p"
    "currentViewIndex s1 = Num ((i + 1) mod ?n)"
    by blast
  have lt: "(i + 1) mod ?n < ?n" using ne by simp
  from Cons.prems(4) have rest: "\<forall>L \<in> set Ls. \<exists>m. zone_under L = Some m \<and> pos m = p" by simp
  from Cons.IH [OF s1(2,3) lt rest]
  obtain s' where s': "toggle_clicks Ls s1 = Inr s'" "lastCellPos s' = Some p"
    "currentViewIndex s' = Num (((i + 1) mod ?n + length Ls) mod ?n)"
    by blast
  have "((i + 1) mod ?n + length Ls) mod ?n = ((i + 1) + length Ls) mod ?n"
    by (rule mod_add_left_eq)
  also have "\<dots> = (i + length (L # Ls)) mod ?n" by simp
  finally have "((i + 1) mod ?n + length Ls) mod ?n = (i + length (L # Ls)) mod ?n" .
  with s' s1(1) show ?case by simp
qed

text \<open>
  C5. With a remembered zone that has views, a numeric view index \<open>i\<close>, and the probe
  over that zone: a click on the toggle button returns with the index
  \<open>(i + 1) mod n\<close>, \<open>n\<close> the number of the zone's views, and with the orientation of
  that view. When \<open>i\<close> is a valid index, \<open>n\<close> clicks in a row bring the index back to
  \<open>i\<close>, and with \<open>n = 1\<close> one click leaves the index as it is.
\<close>

theorem toggle_cycles_views:
  assumes "lastCellPos s = Some p" and "currentViewIndex s = Num i" and "views_at p \<noteq> []"
    and "\<exists>m. zone_under L = Some m \<and> pos m = p"
    and "\<forall>L' \<in> set Ls. \<exists>m. zone_under L' = Some m \<and> pos m = p"
  shows "(\<exists>s'. toggle_click L s = Inr s' \<and> lastCellPos s' = Some p
            \<and> currentViewIndex s' = Num ((i + 1) mod length (views_at p))
            \<and> sweepDeg s' = angle (views_at p ! ((i + 1) mod length (views_at p)))
            \<and> tailPosition s' = tail (views_at p ! ((i + 1) mod length (views_at p))))
         \<and> (i < length (views_at p) \<and> length Ls = length (views_at p) \<longrightarrow>
              (\<exists>s'. toggle_clicks Ls s = Inr s' \<and> lastCellPos s' = Some p
                    \<and> currentViewIndex s' = Num i))
         \<and> (i < length (views_at p) \<and> length (views_at p) = 1 \<longrightarrow>
              (\<exists>s'. toggle_click L s = Inr s' \<and> lastCellPos s' = Some p
                    \<and> currentViewIndex s' = Num i))"
proof (intro conjI impI)
  show step: "\<exists>s'. toggle_click L s = Inr s' \<and> lastCellPos s' = Some p
            \<and> currentViewIndex s' = Num ((i + 1) mod length (views_at p))
            \<and> sweepDeg s' = angle (views_at p ! ((i + 1) mod length (views_at p)))
            \<and> tailPosition s' = tail (views_at p ! ((i + 1) mod length (views_at p)))"
    by (rule toggle_click_step [OF assms(1,2,3,4)])
  {
    assume h: "i < length (views_at p) \<and> length Ls = length (views_at p)"
    from toggle_clicks_run [OF assms(1,2) _ assms(5)] h
    show "\<exists>s'. toggle_clicks Ls s = Inr s' \<and> lastCellPos s' = Some p
                    \<and> currentViewIndex s' = Num i"
      by simp
  }
  {
    assume h: "i < length (views_at p) \<and> length (views_at p) = 1"
    with step show "\<exists>s'. toggle_click L s = Inr s' \<and> lastCellPos s' = Some p
                    \<and> currentViewIndex s' = Num i"
      by auto
  }
qed

theorem toggle_cycles_views_witness:
  "(\<exists>s'. toggle_click (probe_at 130 180)
            (initial_state\<lparr>lastCellPos := Some 2, currentViewIndex := Num 1\<rparr>) = Inr s'
        \<and> currentViewIndex s' = Num 2 \<and> sweepDeg s' = 300 \<and> tailPosition s' = up)
   \<and> (\<exists>s'. toggle_clicks [probe_at 130 180, probe_at 130 180, probe_at 130 180]
            (initial_state\<lparr>lastCellPos := Some 2, currentViewIndex := Num 1\<rparr>) = Inr s'
        \<and> lastCellPos s' = Some 2 \<and> currentViewIndex s' = Num 1)
   \<and> (\<exists>s'. toggle_click (probe_at 130 80)
            (initial_state\<lparr>lastCellPos := Some 1, currentViewIndex := Num 0\<rparr>) = Inr s'
        \<and> lastCellPos s' = Some 1 \<and> currentViewIndex s' = Num 0)"
proof -
  let ?s = "initial_state\<lparr>lastCellPos := Some 2, currentViewIndex := Num 1\<rparr>"
  let ?L = "probe_at 130 180"
  let ?t = "initial_state\<lparr>lastCellPos := Some 1, currentViewIndex := Num 0\<rparr>"
  let ?K = "probe_at 130 80"
  have s: "lastCellPos ?s = Some 2" "currentViewIndex ?s = Num 1" "views_at 2 \<noteq> []"
    "\<exists>m. zone_under ?L = Some m \<and> pos m = 2"
    "\<forall>L' \<in> set [?L, ?L, ?L]. \<exists>m. zone_under L' = Some m \<and> pos m = 2"
    by (simp_all add: views_at_simps zone_under_zone2)
  have n2: "(1::nat) < length (views_at 2) \<and> length [?L, ?L, ?L] = length (views_at 2)"
    by (simp add: views_at_simps)
  have t: "lastCellPos ?t = Some 1" "currentViewIndex ?t = Num 0" "views_at 1 \<noteq> []"
    "\<exists>m. zone_under ?K = Some m \<and> pos m = 1"
    "\<forall>L' \<in> set [?K]. \<exists>m. zone_under L' = Some m \<and> pos m = 1"
    by (simp_all add: views_at_def cellOrientationMap_def zone_under_zone1)
  have n1: "(0::nat) < length (views_at 1) \<and> length (views_at 1) = 1"
    by (simp add: views_at_def cellOrientationMap_def)
  note a = toggle_cycles_views [OF s]
  note b = toggle_cycles_views [OF t]
  from a have "\<exists>s'. toggle_click ?L ?s = Inr s'
        \<and> currentViewIndex s' = Num 2 \<and> sweepDeg s' = 300 \<and> tailPosition s' = up"
    by (auto simp: views_at_simps)
  moreover from a n2 have "\<exists>s'. toggle_clicks [?L, ?L, ?L] ?s = Inr s'
        \<and> lastCellPos s' = Some 2 \<and> currentViewIndex s' = Num 1"
    by blast
  moreover from b n1 have "\<exists>s'. toggle_click ?K ?t = Inr s'
        \<and> lastCellPos s' = Some 1 \<and> currentViewIndex s' = Num 0"
    by blast
  ultimately show ?thesis by blast
qed


section \<open>The toggle button's visibility\<close>

text \<open>
  Over a zone with views, the image preview leaves the toggle button shown exactly when
  the source's condition holds: more than one view and the simulator active, or the sandbox
  active, whatever the number of views.
\<close>

lemma switch_view_visibility:
  assumes "zone_under L = Some m" and "views_at (pos m) \<noteq> []"
    and "updateImagePreview L s = Inr s'"
  shows "toggleButtonHidden s' =
           (\<not> (length (views_at (pos m)) > 1 \<and> isSimulatorActive s \<or> isSandBoxActive s))"
proof -
  define s2 where "s2 = reset_view_index (pos m) (clear_panel s)"
  define s3 where "s3 = show_switch_view (views_at (pos m)) s2"
  have "same_quiz s s2" unfolding s2_def
    by (blast intro: same_quiz_trans clear_panel_same reset_view_index_same)
  then have flags: "isSimulatorActive s2 = isSimulatorActive s" "isSandBoxActive s2 = isSandBoxActive s"
    by (simp_all add: same_quiz_def)
  have hidden: "toggleButtonHidden s2"
    by (simp add: s2_def reset_view_index_def clear_panel_def)
  have s3: "toggleButtonHidden s3 =
           (\<not> (length (views_at (pos m)) > 1 \<and> isSimulatorActive s \<or> isSandBoxActive s))"
    using flags hidden by (simp add: s3_def show_switch_view_def)
  from assms(3) obtain i where
    "s' = inject_image (pos m) (views_at (pos m) ! i) (apply_view (pos m) i (views_at (pos m) ! i) s3)"
    by (auto simp: updateImagePreview_views [OF assms(1,2)] Let_def s3_def s2_def
             split: jsnum.splits)
  then show ?thesis using s3 by (simp add: toggle_of_shown)
qed

text \<open>
  C7. The toggle button is to be shown only over a zone with more than one view, in the
  active simulator or in the sandbox; the comment of the guard says "if there are
  multiples". The code does otherwise: in sandbox mode, over zone 1, which has one view,
  the position update leaves the button shown.
\<close>

theorem switch_view_shown_in_sandbox_single_view:
  "length (views_at 1) = 1
   \<and> isSandBoxActive (initial_state\<lparr>isSandBoxActive := True\<rparr>)
   \<and> (\<exists>s'. position_update (probe_at 130 80) (initial_state\<lparr>isSandBoxActive := True\<rparr>) = Inr s'
          \<and> lastCellPos s' = Some 1 \<and> toggleButtonHidden s' = False)"
proof -
  let ?s = "initial_state\<lparr>isSandBoxActive := True\<rparr>"
  let ?m = "\<lparr>pos = 1, box = square 100 50 60\<rparr>"
  have n: "length (views_at 1) = 1" by (simp add: views_at_def cellOrientationMap_def)
  have ne: "views_at (pos ?m) \<noteq> []" by (simp add: views_at_def cellOrientationMap_def)
  have other: "lastCellPos ?s \<noteq> Some (pos ?m)" by (simp add: initial_state_def)
  from updateImagePreview_enter [OF zone_under_zone1 ne other]
  obtain s' where s': "updateImagePreview (probe_at 130 80) ?s = Inr s'" "lastCellPos s' = Some 1"
    by auto
  from switch_view_visibility [OF zone_under_zone1 ne s'(1)]
  have "toggleButtonHidden s' = False" by simp
  with s' n show ?thesis by (simp add: position_update_def)
qed


section \<open>The rope's anchor and the drawing surface's coordinates\<close>

text \<open>
  C6. With the view index 2 the anchor is the probe's centre. Otherwise the anchors for
  tail down and for tail up at the same angle have the centre as their midpoint, each lies
  at distance 80 (the fixed radius \<open>160 / 2\<close>) from the centre, and the anchor for tail
  up is the anchor for tail down at the angle plus 180 degrees. Numbers are real numbers
  here; the rounding of floating-point arithmetic is not part of the statement.
\<close>

theorem tail_anchor_opposite:
  "getTailAnchor probeEl angleDeg tailDir' (Num 2) = getProbeCenter probeEl
   \<and> (viewIndex \<noteq> Num 2 \<longrightarrow>
        (let c = getProbeCenter probeEl;
             a = getTailAnchor probeEl angleDeg down viewIndex;
             b = getTailAnchor probeEl angleDeg up viewIndex
         in (fst a + fst b) / 2 = fst c \<and> (snd a + snd b) / 2 = snd c
            \<and> (fst a - fst c)\<^sup>2 + (snd a - snd c)\<^sup>2 = 80\<^sup>2
            \<and> (fst b - fst c)\<^sup>2 + (snd b - snd c)\<^sup>2 = 80\<^sup>2
            \<and> b = getTailAnchor probeEl (angleDeg + 180) down viewIndex))"
proof (intro conjI impI)
  show "getTailAnchor probeEl angleDeg tailDir' (Num 2) = getProbeCenter probeEl"
    by (simp add: getTailAnchor_def Let_def split: prod.splits)
next
  assume ne: "viewIndex \<noteq> Num 2"
  let ?t = "angleDeg * pi / 180"
  have circle: "(80 * cos t)\<^sup>2 + (80 * sin t)\<^sup>2 = (80::real)\<^sup>2" for t :: real
  proof -
    have "(cos t)\<^sup>2 + (sin t)\<^sup>2 = 1" by simp
    then have "6400 * (cos t)\<^sup>2 + 6400 * (sin t)\<^sup>2 = 6400" by linarith
    then show ?thesis by (simp add: power_mult_distrib)
  qed
  have half: "(angleDeg + 180) * pi / 180 = ?t + pi"
    by (simp add: field_simps)
  have a: "getTailAnchor probeEl angleDeg down viewIndex =
             (fst (getProbeCenter probeEl) + 80 * cos ?t, snd (getProbeCenter probeEl) + 80 * sin ?t)"
    using ne by (simp add: getTailAnchor_def Let_def split: prod.splits)
  have b: "getTailAnchor probeEl angleDeg up viewIndex =
             (fst (getProbeCenter probeEl) - 80 * cos ?t, snd (getProbeCenter probeEl) - 80 * sin ?t)"
    using ne by (simp add: getTailAnchor_def Let_def split: prod.splits)
  have c: "getTailAnchor probeEl (angleDeg + 180) down viewIndex =
             (fst (getProbeCenter probeEl) - 80 * cos ?t, snd (getProbeCenter probeEl) - 80 * sin ?t)"
    using ne by (simp add: getTailAnchor_def Let_def half split: prod.splits)
  show "let c = getProbeCenter probeEl;
             a = getTailAnchor probeEl angleDeg down viewIndex;
             b = getTailAnchor probeEl angleDeg up viewIndex
         in (fst a + fst b) / 2 = fst c \<and> (snd a + snd b) / 2 = snd c
            \<and> (fst a - fst c)\<^sup>2 + (snd a - snd c)\<^sup>2 = 80\<^sup>2
            \<and> (fst b - fst c)\<^sup>2 + (snd b - snd c)\<^sup>2 = 80\<^sup>2
            \<and> b = getTailAnchor probeEl (angleDeg + 180) down viewIndex"
    unfolding Let_def a b c using circle [of ?t] by simp
qed

theorem tail_anchor_opposite_witness:
  "Num 0 \<noteq> Num 2
   \<and> getProbeCenter (square 50 100 160) = (130, 180)
   \<and> getTailAnchor (square 50 100 160) 0 down (Num 0) = (210, 180)
   \<and> getTailAnchor (square 50 100 160) 0 up (Num 0) = (50, 180)"
proof -
  let ?a = "getTailAnchor (square 50 100 160) 0 down (Num 0)"
  let ?b = "getTailAnchor (square 50 100 160) 0 up (Num 0)"
  have h: "Num 0 \<noteq> Num 2" by simp
  have c: "getProbeCenter (square 50 100 160) = (130, 180)"
    by (simp add: getProbeCenter_def square_def)
  have a: "?a = (210, 180)"
    by (simp add: getTailAnchor_def c)
  from tail_anchor_opposite [of "square 50 100 160" 0 up "Num 0"] h
  have "(fst ?a + fst ?b) / 2 = fst (getProbeCenter (square 50 100 160))
        \<and> (snd ?a + snd ?b) / 2 = snd (getProbeCenter (square 50 100 160))"
    unfolding Let_def by blast
  then have "fst ?b = 50" "snd ?b = 180"
    unfolding a c by simp_all
  then have "?b = (50, 180)"
    by (simp add: prod_eq_iff)
  with h a c show ?thesis by simp
qed

lemma affine_inverse_coordinate:
  fixes a b c d e f u v D :: real
  assumes "D = a * d - b * c" and "D \<noteq> 0"
  shows "a * (d / D * u + - c / D * v + (c * f - d * e) / D)
           + c * (- b / D * u + a / D * v + (b * e - a * f) / D) + e = u"
    and "b * (d / D * u + - c / D * v + (c * f - d * e) / D)
           + d * (- b / D * u + a / D * v + (b * e - a * f) / D) + f = v"
proof -
  have "a * (d / D * u + - c / D * v + (c * f - d * e) / D)
           + c * (- b / D * u + a / D * v + (b * e - a * f) / D)
        = (a * (d * u - c * v + (c * f - d * e)) + c * (- b * u + a * v + (b * e - a * f))) / D"
    by (simp add: add_divide_distrib diff_divide_distrib distrib_left right_diff_distrib)
  also have "a * (d * u - c * v + (c * f - d * e)) + c * (- b * u + a * v + (b * e - a * f))
        = D * (u - e)"
    unfolding assms(1) by (simp add: algebra_simps)
  finally show "a * (d / D * u + - c / D * v + (c * f - d * e) / D)
           + c * (- b / D * u + a / D * v + (b * e - a * f) / D) + e = u"
    using assms(2) by simp
  have "b * (d / D * u + - c / D * v + (c * f - d * e) / D)
           + d * (- b / D * u + a / D * v + (b * e - a * f) / D)
        = (b * (d * u - c * v + (c * f - d * e)) + d * (- b * u + a * v + (b * e - a * f))) / D"
    by (simp add: add_divide_distrib diff_divide_distrib distrib_left right_diff_distrib)
  also have "b * (d * u - c * v + (c * f - d * e)) + d * (- b * u + a * v + (b * e - a * f))
        = D * (v - f)"
    unfolding assms(1) by (simp add: algebra_simps)
  finally show "b * (d / D * u + - c / D * v + (c * f - d * e) / D)
           + d * (- b / D * u + a / D * v + (b * e - a * f) / D) + f = v"
    using assms(2) by simp
qed

text \<open>
  C8. Without a screen transform (\<open>getScreenCTM\<close> returns \<open>null\<close>) the conversion
  returns the coordinates it was given, logs one warning and does not throw. With an
  invertible screen transform it logs nothing and returns the point that the inverse
  matrix maps the given point to, which is the point that the screen transform maps back
  to the given one.
\<close>

theorem toSvgCoords_fallback:
  "toSvgCoords None px py = ([''SVG CTM not available''], Inr (px, py))
   \<and> (ma m * md m - mb m * mc m \<noteq> 0 \<longrightarrow>
        (\<exists>inv pt. matrix_inverse m = Inr inv
           \<and> toSvgCoords (Some m) px py = ([], Inr pt)
           \<and> pt = matrixTransform (px, py) inv
           \<and> matrixTransform pt m = (px, py)))"
proof (intro conjI impI)
  show "toSvgCoords None px py = ([''SVG CTM not available''], Inr (px, py))"
    by (simp add: toSvgCoords_def)
next
  assume det: "ma m * md m - mb m * mc m \<noteq> 0"
  define d where "d = ma m * md m - mb m * mc m"
  define inv where "inv = \<lparr>ma = md m / d, mb = - mb m / d,
                   mc = - mc m / d, md = ma m / d,
                   me = (mc m * mf m - md m * me m) / d,
                   mf = (mb m * me m - ma m * mf m) / d\<rparr>"
  have d0: "d \<noteq> 0" using det by (simp add: d_def)
  have i: "matrix_inverse m = Inr inv"
    using det by (simp add: matrix_inverse_def Let_def inv_def d_def)
  have t: "toSvgCoords (Some m) px py = ([], Inr (matrixTransform (px, py) inv))"
    by (simp add: toSvgCoords_def i then_do_def)
  have dd: "d = ma m * md m - mb m * mc m" by (simp add: d_def)
  note xy = affine_inverse_coordinate [OF dd d0, where u = px and v = py and e = "me m" and f = "mf m"]
  have r: "matrixTransform (matrixTransform (px, py) inv) m = (px, py)"
    using xy by (simp add: matrixTransform_def inv_def)
  from i t r show "\<exists>inv pt. matrix_inverse m = Inr inv
           \<and> toSvgCoords (Some m) px py = ([], Inr pt)
           \<and> pt = matrixTransform (px, py) inv
           \<and> matrixTransform pt m = (px, py)"
    by blast
qed

theorem toSvgCoords_fallback_witness:
  "ma \<lparr>ma = 2, mb = 0, mc = 0, md = 2, me = 10, mf = 20\<rparr>
     * md \<lparr>ma = 2, mb = 0, mc = 0, md = 2, me = 10, mf = 20\<rparr>
     - mb \<lparr>ma = 2, mb = 0, mc = 0, md = 2, me = 10, mf = 20\<rparr>
     * mc \<lparr>ma = 2, mb = 0, mc = 0, md = 2, me = 10, mf = 20\<rparr> \<noteq> 0
   \<and> (\<exists>pt. toSvgCoords (Some \<lparr>ma = 2, mb = 0, mc = 0, md = 2, me = 10, mf = 20\<rparr>) 30 60
              = ([], Inr pt)
          \<and> matrixTransform pt \<lparr>ma = 2, mb = 0, mc = 0, md = 2, me = 10, mf = 20\<rparr> = (30, 60))"
proof -
  let ?m = "\<lparr>ma = 2, mb = 0, mc = 0, md = 2, me = 10, mf = 20\<rparr>"
  have h: "ma ?m * md ?m - mb ?m * mc ?m \<noteq> 0" by simp
  from toSvgCoords_fallback [of 30 60 ?m] h
  have "\<exists>pt. toSvgCoords (Some ?m) 30 60 = ([], Inr pt) \<and> matrixTransform pt ?m = (30, 60)"
    by blast
  with h show ?thesis by blast
qed

section \<open>Advancing through the quiz\<close>

lemma nextQuestion_click_more:
  assumes "view_index_valid s" and "at_index quizData (currentQuestionIndex s + 1) = Some q"
  shows "\<exists>s'. nextQuestion_click L s = Inr s' \<and> view_index_valid s'
           \<and> currentQuestionIndex s' = currentQuestionIndex s + 1
           \<and> \<not> isFeedbackActive s' \<and> questionBox s' = question q
           \<and> questionNumber s' = (currentQuestionIndex s + 2, length quizData)
           \<and> score s' = score s \<and> isSandBoxActive s' = isSandBoxActive s
           \<and> endScreenHidden s' = endScreenHidden s \<and> finalScore s' = finalScore s
           \<and> confetti s' = confetti s"
proof -
  let ?s1 = "s\<lparr>feedbackBoxHidden := True, containerOverlayHidden := True,
                  showAnswerButtonHidden := True, nextQuestionButtonHidden := True,
                  isFeedbackActive := False,
                  currentQuestionIndex := currentQuestionIndex s + 1,
                  questionTitleScreenHidden := False, containerHidden := True,
                  isSimulatorActive := False\<rparr>"
  have eq: "nextQuestion_click L s = loadQuestion L ?s1"
    using assms(2) by (simp add: nextQuestion_click_def Let_def)
  have "view_index_valid ?s1 = view_index_valid s"
    by (rule view_index_valid_cong) simp_all
  with assms(1) have v: "view_index_valid ?s1" by simp
  have q: "at_index quizData (currentQuestionIndex ?s1) = Some q"
    using assms(2) by simp
  from loadQuestion_valid [OF v q, of L] show ?thesis
    unfolding eq by auto
qed

lemma nextQuestion_click_last:
  assumes "at_index quizData (currentQuestionIndex s + 1) = None"
  shows "\<exists>s'. nextQuestion_click L s = Inr s'
           \<and> currentQuestionIndex s' = currentQuestionIndex s + 1
           \<and> \<not> isFeedbackActive s' \<and> \<not> endScreenHidden s'
           \<and> finalScore s' = Some (score s, length quizData)
           \<and> score s' = score s \<and> confetti s' = confetti s + 100"
  using assms by (simp add: nextQuestion_click_def Let_def)

lemma at_index_Some_iff: "at_index xs i = Some v \<longleftrightarrow> i < length xs \<and> xs ! i = v"
  by (auto simp: at_index_def)

lemma at_index_None_iff: "at_index xs i = None \<longleftrightarrow> length xs \<le> i"
  by (auto simp: at_index_def)

lemma then_do_Inr_iff: "then_do r f = Inr v \<longleftrightarrow> (\<exists>u. r = Inr u \<and> f u = Inr v)"
  by (cases r) simp_all

lemma circle_click_frame:
  "lastCellPos (state_after (circle_click p c s)) = lastCellPos s
   \<and> currentViewIndex (state_after (circle_click p c s)) = currentViewIndex s
   \<and> endScreenHidden (state_after (circle_click p c s)) = endScreenHidden s
   \<and> finalScore (state_after (circle_click p c s)) = finalScore s
   \<and> confetti (state_after (circle_click p c s)) = confetti s"
  by (simp add: circle_click_def Let_def split: option.splits)

lemma clicks_frame:
  assumes "clicks cs s = Inr s'"
  shows "lastCellPos s' = lastCellPos s \<and> currentViewIndex s' = currentViewIndex s
           \<and> endScreenHidden s' = endScreenHidden s \<and> finalScore s' = finalScore s
           \<and> confetti s' = confetti s"
  using assms
proof (induction cs arbitrary: s)
  case Nil
  then show ?case by simp
next
  case (Cons pc cs)
  from Cons.prems obtain s1 where s1: "circle_click (fst pc) (snd pc) s = Inr s1"
    "clicks cs s1 = Inr s'"
    by (auto simp: then_do_Inr_iff)
  from circle_click_frame [of "fst pc" "snd pc" s] s1(1)
  have "lastCellPos s1 = lastCellPos s \<and> currentViewIndex s1 = currentViewIndex s
           \<and> endScreenHidden s1 = endScreenHidden s \<and> finalScore s1 = finalScore s
           \<and> confetti s1 = confetti s"
    by simp
  with Cons.IH [OF s1(2)] show ?case by simp
qed

lemma play_round:
  assumes "\<not> isSandBoxActive s" and "\<not> isFeedbackActive s" and "view_index_valid s"
    and "currentQuestionIndex s < length quizData"
  shows "\<exists>s1. clicks (fst r) s = Inr s1 \<and> \<not> isSandBoxActive s1 \<and> view_index_valid s1
           \<and> currentQuestionIndex s1 = currentQuestionIndex s
           \<and> score s1 = score s + (if first_click_matches (quizData ! currentQuestionIndex s) (fst r)
                                    then 1 else 0)
           \<and> endScreenHidden s1 = endScreenHidden s \<and> finalScore s1 = finalScore s
           \<and> confetti s1 = confetti s"
proof -
  let ?k = "currentQuestionIndex s"
  from assms(4) have q: "at_index quizData ?k = Some (quizData ! ?k)"
    by (simp add: at_index_def)
  from clicks_quiz [OF assms(1) q, of "fst r"] assms(2)
  obtain s1 where s1: "clicks (fst r) s = Inr s1" "\<not> isSandBoxActive s1"
    "currentQuestionIndex s1 = ?k"
    "score s1 = score s + (if first_click_matches (quizData ! ?k) (fst r) then 1 else 0)"
    by auto
  note f = clicks_frame [OF s1(1)]
  have "view_index_valid s1 = view_index_valid s"
    by (rule view_index_valid_cong) (simp_all add: f)
  with assms(3) s1 f show ?thesis by simp
qed

lemma play_before_end:
  assumes "\<not> isSandBoxActive s" and "\<not> isFeedbackActive s" and "view_index_valid s"
    and "currentQuestionIndex s + length rounds < length quizData"
  shows "\<exists>s'. play rounds s = Inr s' \<and> \<not> isSandBoxActive s' \<and> \<not> isFeedbackActive s'
           \<and> view_index_valid s'
           \<and> currentQuestionIndex s' = currentQuestionIndex s + length rounds
           \<and> score s' = score s + correct_count (drop (currentQuestionIndex s) quizData) rounds
           \<and> endScreenHidden s' = endScreenHidden s \<and> finalScore s' = finalScore s
           \<and> confetti s' = confetti s"
  using assms
proof (induction rounds arbitrary: s)
  case Nil
  then show ?case by simp
next
  case (Cons r rounds)
  let ?k = "currentQuestionIndex s"
  from Cons.prems(4) have k: "?k < length quizData" by simp
  from play_round [OF Cons.prems(1,2,3) k, of r]
  obtain s1 where s1: "clicks (fst r) s = Inr s1" "\<not> isSandBoxActive s1" "view_index_valid s1"
    "currentQuestionIndex s1 = ?k"
    "score s1 = score s + (if first_click_matches (quizData ! ?k) (fst r) then 1 else 0)"
    "endScreenHidden s1 = endScreenHidden s" "finalScore s1 = finalScore s"
    "confetti s1 = confetti s"
    by blast
  from Cons.prems(4) s1(4)
  have q: "at_index quizData (currentQuestionIndex s1 + 1) = Some (quizData ! (?k + 1))"
    by (simp add: at_index_def)
  from nextQuestion_click_more [OF s1(3) q, of "snd r"]
  obtain s2 where s2: "nextQuestion_click (snd r) s1 = Inr s2" "view_index_valid s2"
    "currentQuestionIndex s2 = ?k + 1" "\<not> isFeedbackActive s2"
    "score s2 = score s1" "isSandBoxActive s2 = isSandBoxActive s1"
    "endScreenHidden s2 = endScreenHidden s1" "finalScore s2 = finalScore s1"
    "confetti s2 = confetti s1"
    using s1(4) by auto
  have sb: "\<not> isSandBoxActive s2" using s2(6) s1(2) by simp
  have len: "currentQuestionIndex s2 + length rounds < length quizData"
    using Cons.prems(4) s2(3) by simp
  from Cons.IH [OF sb s2(4) s2(2) len]
  obtain s' where s': "play rounds s2 = Inr s'" "\<not> isSandBoxActive s'" "\<not> isFeedbackActive s'"
    "view_index_valid s'"
    "currentQuestionIndex s' = currentQuestionIndex s2 + length rounds"
    "score s' = score s2 + correct_count (drop (currentQuestionIndex s2) quizData) rounds"
    "endScreenHidden s' = endScreenHidden s2" "finalScore s' = finalScore s2"
    "confetti s' = confetti s2"
    by blast
  have dr: "drop ?k quizData = quizData ! ?k # drop (?k + 1) quizData"
    using k by (simp add: Cons_nth_drop_Suc)
  have "play (r # rounds) s = Inr s'" using s1(1) s2(1) s'(1) by simp
  moreover have "score s' = score s + correct_count (drop ?k quizData) (r # rounds)"
    using s'(6) s2(3,5) s1(5) by (simp add: dr)
  ultimately show ?case
    using s' s2 s1 by simp
qed

lemma play_to_end:
  assumes "\<not> isSandBoxActive s" and "\<not> isFeedbackActive s" and "view_index_valid s"
    and "currentQuestionIndex s + length rounds = length quizData" and "rounds \<noteq> []"
  shows "\<exists>s'. play rounds s = Inr s'
           \<and> currentQuestionIndex s' = length quizData
           \<and> score s' = score s + correct_count (drop (currentQuestionIndex s) quizData) rounds
           \<and> \<not> endScreenHidden s' \<and> finalScore s' = Some (score s', length quizData)
           \<and> confetti s' = confetti s + 100"
  using assms
proof (induction rounds arbitrary: s)
  case Nil
  then show ?case by simp
next
  case (Cons r rounds)
  let ?k = "currentQuestionIndex s"
  from Cons.prems(4) have k: "?k < length quizData" by simp
  have dr: "drop ?k quizData = quizData ! ?k # drop (?k + 1) quizData"
    using k by (simp add: Cons_nth_drop_Suc)
  from play_round [OF Cons.prems(1,2,3) k, of r]
  obtain s1 where s1: "clicks (fst r) s = Inr s1" "\<not> isSandBoxActive s1" "view_index_valid s1"
    "currentQuestionIndex s1 = ?k"
    "score s1 = score s + (if first_click_matches (quizData ! ?k) (fst r) then 1 else 0)"
    "endScreenHidden s1 = endScreenHidden s" "finalScore s1 = finalScore s"
    "confetti s1 = confetti s"
    by blast
  show ?case
  proof (cases "rounds = []")
    case True
    with Cons.prems(4) s1(4)
    have q: "at_index quizData (currentQuestionIndex s1 + 1) = None"
      by (simp add: at_index_def)
    from nextQuestion_click_last [OF q, of "snd r"]
    obtain s2 where s2: "nextQuestion_click (snd r) s1 = Inr s2"
      "currentQuestionIndex s2 = currentQuestionIndex s1 + 1"
      "\<not> endScreenHidden s2" "finalScore s2 = Some (score s1, length quizData)"
      "score s2 = score s1" "confetti s2 = confetti s1 + 100"
      by blast
    have "play (r # rounds) s = Inr s2" using True s1(1) s2(1) by simp
    moreover have "currentQuestionIndex s2 = length quizData"
      using s2(2) s1(4) Cons.prems(4) True by simp
    moreover have "score s2 = score s + correct_count (drop ?k quizData) (r # rounds)"
      using s2(5) s1(5) True by (simp add: dr)
    ultimately show ?thesis using s2(3,4,5,6) s1(8) by simp
  next
    case False
    from Cons.prems(4) s1(4) False
    have q: "at_index quizData (currentQuestionIndex s1 + 1) = Some (quizData ! (?k + 1))"
      by (cases rounds) (simp_all add: at_index_def)
    from nextQuestion_click_more [OF s1(3) q, of "snd r"]
    obtain s2 where s2: "nextQuestion_click (snd r) s1 = Inr s2" "view_index_valid s2"
      "currentQuestionIndex s2 = ?k + 1" "\<not> isFeedbackActive s2"
      "score s2 = score s1" "isSandBoxActive s2 = isSandBoxActive s1"
      "confetti s2 = confetti s1"
      using s1(4) by auto
    have sb: "\<not> isSandBoxActive s2" using s2(6) s1(2) by simp
    have len: "currentQuestionIndex s2 + length rounds = length quizData"
      using Cons.prems(4) s2(3) by simp
    from Cons.IH [OF sb s2(4) s2(2) len False]
    obtain s' where s': "play rounds s2 = Inr s'"
      "currentQuestionIndex s' = length quizData"
      "score s' = score s2 + correct_count (drop (currentQuestionIndex s2) quizData) rounds"
      "\<not> endScreenHidden s'" "finalScore s' = Some (score s', length quizData)"
      "confetti s' = confetti s2 + 100"
      by blast
    have "play (r # rounds) s = Inr s'" using s1(1) s2(1) s'(1) by simp
    moreover have "score s' = score s + correct_count (drop ?k quizData) (r # rounds)"
      using s'(3) s2(3,5) s1(5) by (simp add: dr)
    ultimately show ?thesis using s'(2,4,5,6) s2(7) s1(8) by simp
  qed
qed

text \<open>
  C2. From a state with a valid view index, the click on "next question" returns with the
  question index one higher. When a question exists at the new index, the feedback is off
  and that question is displayed, the score and the end screen untouched; otherwise the
  end screen shows and the final score reads the score out of the number of questions.
  A whole quiz in quiz mode, played from the first question with score 0 in as many
  rounds as there are questions, ends with the end screen showing, the confetti added
  once, and the final score equal to the number of rounds whose first click named the
  question's position and answer; after any smaller number of rounds the end screen is
  still hidden.
\<close>

theorem advance_and_final_score:
  assumes "view_index_valid s"
  shows "(\<exists>s'. nextQuestion_click L s = Inr s'
            \<and> currentQuestionIndex s' = currentQuestionIndex s + 1
            \<and> (case at_index quizData (currentQuestionIndex s + 1) of
                  Some q \<Rightarrow> \<not> isFeedbackActive s' \<and> questionBox s' = question q
                            \<and> questionNumber s' = (currentQuestionIndex s + 2, length quizData)
                            \<and> score s' = score s
                            \<and> endScreenHidden s' = endScreenHidden s
                            \<and> finalScore s' = finalScore s
                | None \<Rightarrow> \<not> endScreenHidden s'
                            \<and> finalScore s' = Some (score s, length quizData)))
         \<and> (\<not> isSandBoxActive s \<and> \<not> isFeedbackActive s \<and> currentQuestionIndex s = 0
              \<and> score s = 0 \<and> endScreenHidden s \<and> length rounds = length quizData \<longrightarrow>
              (\<exists>s'. play rounds s = Inr s'
                 \<and> currentQuestionIndex s' = length quizData
                 \<and> score s' = correct_count quizData rounds
                 \<and> \<not> endScreenHidden s'
                 \<and> finalScore s' = Some (correct_count quizData rounds, length quizData)
                 \<and> confetti s' = confetti s + 100)
              \<and> (\<forall>j < length quizData.
                   \<exists>sj. play (take j rounds) s = Inr sj \<and> endScreenHidden sj
                        \<and> finalScore sj = finalScore s \<and> currentQuestionIndex sj = j))"
proof (intro conjI impI)
  show "\<exists>s'. nextQuestion_click L s = Inr s'
            \<and> currentQuestionIndex s' = currentQuestionIndex s + 1
            \<and> (case at_index quizData (currentQuestionIndex s + 1) of
                  Some q \<Rightarrow> \<not> isFeedbackActive s' \<and> questionBox s' = question q
                            \<and> questionNumber s' = (currentQuestionIndex s + 2, length quizData)
                            \<and> score s' = score s
                            \<and> endScreenHidden s' = endScreenHidden s
                            \<and> finalScore s' = finalScore s
                | None \<Rightarrow> \<not> endScreenHidden s'
                            \<and> finalScore s' = Some (score s, length quizData))"
  proof (cases "at_index quizData (currentQuestionIndex s + 1)")
    case None
    from nextQuestion_click_last [OF None, of L] None show ?thesis by auto
  next
    case (Some q)
    from nextQuestion_click_more [OF assms Some, of L] Some show ?thesis by auto
  qed
next
  assume h: "\<not> isSandBoxActive s \<and> \<not> isFeedbackActive s \<and> currentQuestionIndex s = 0
              \<and> score s = 0 \<and> endScreenHidden s \<and> length rounds = length quizData"
  have n: "0 < length quizData" by (simp add: quizData_def)
  from h n have ne: "rounds \<noteq> []" by auto
  from h have len: "currentQuestionIndex s + length rounds = length quizData" by simp
  from play_to_end [OF _ _ assms len ne] h
  show "\<exists>s'. play rounds s = Inr s'
                 \<and> currentQuestionIndex s' = length quizData
                 \<and> score s' = correct_count quizData rounds
                 \<and> \<not> endScreenHidden s'
                 \<and> finalScore s' = Some (correct_count quizData rounds, length quizData)
                 \<and> confetti s' = confetti s + 100"
    by auto
  show "\<forall>j < length quizData.
                   \<exists>sj. play (take j rounds) s = Inr sj \<and> endScreenHidden sj
                        \<and> finalScore sj = finalScore s \<and> currentQuestionIndex sj = j"
  proof (intro allI impI)
    fix j assume j: "j < length quizData"
    with h have "currentQuestionIndex s + length (take j rounds) < length quizData" by simp
    from play_before_end [OF _ _ assms this] h j
    show "\<exists>sj. play (take j rounds) s = Inr sj \<and> endScreenHidden sj
                        \<and> finalScore sj = finalScore s \<and> currentQuestionIndex sj = j"
      by auto
  qed
qed

theorem advance_and_final_score_witness:
  "view_index_valid initial_state
   \<and> \<not> isSandBoxActive initial_state \<and> \<not> isFeedbackActive initial_state
   \<and> currentQuestionIndex initial_state = 0 \<and> score initial_state = 0
   \<and> endScreenHidden initial_state \<and> length all_correct_rounds = length quizData
   \<and> (\<exists>s'. play all_correct_rounds initial_state = Inr s' \<and> score s' = 5
          \<and> \<not> endScreenHidden s' \<and> finalScore s' = Some (5, 5))
   \<and> (\<exists>sj. play (take 3 all_correct_rounds) initial_state = Inr sj \<and> endScreenHidden sj
          \<and> currentQuestionIndex sj = 3)"
proof -
  have v: "view_index_valid initial_state"
    by (simp add: view_index_valid_def initial_state_def)
  have h: "\<not> isSandBoxActive initial_state \<and> \<not> isFeedbackActive initial_state
             \<and> currentQuestionIndex initial_state = 0 \<and> score initial_state = 0
             \<and> endScreenHidden initial_state \<and> length all_correct_rounds = length quizData"
    by (simp add: initial_state_def all_correct_rounds_def quizData_def)
  have n: "length quizData = 5" by (simp add: quizData_def)
  have c: "correct_count quizData all_correct_rounds = 5"
    by (simp add: quizData_def all_correct_rounds_def first_click_matches_def circle_G_def)
  note t = advance_and_final_score [OF v, of "probe_at 130 180" all_correct_rounds]
  from t h have "\<exists>s'. play all_correct_rounds initial_state = Inr s'
                 \<and> score s' = correct_count quizData all_correct_rounds
                 \<and> \<not> endScreenHidden s'
                 \<and> finalScore s' = Some (correct_count quizData all_correct_rounds, length quizData)"
    by blast
  then have a: "\<exists>s'. play all_correct_rounds initial_state = Inr s' \<and> score s' = 5
          \<and> \<not> endScreenHidden s' \<and> finalScore s' = Some (5, 5)"
    unfolding c n .
  from t h have pre: "\<forall>j < length quizData.
                   \<exists>sj. play (take j all_correct_rounds) initial_state = Inr sj \<and> endScreenHidden sj
                        \<and> finalScore sj = finalScore initial_state \<and> currentQuestionIndex sj = j"
    by blast
  have "(3::nat) < length quizData" by (simp add: n)
  with pre have "\<exists>sj. play (take 3 all_correct_rounds) initial_state = Inr sj \<and> endScreenHidden sj
          \<and> finalScore sj = finalScore initial_state \<and> currentQuestionIndex sj = 3"
    by blast
  then have b: "\<exists>sj. play (take 3 all_correct_rounds) initial_state = Inr sj \<and> endScreenHidden sj
          \<and> currentQuestionIndex sj = 3"
    by blast
  from v h a b show ?thesis by blast
qed

end
